theory Spec2Isabelle
  imports Main
begin

section \<open>Strings and library functions\<close>

text \<open>
  The development embeds the identity and session subsystem of
  \<^verbatim>\<open>BiblicalInspiration/serve_biblical_inspiration.py\<close>: the three tables of the
  SQLite store, \<^verbatim>\<open>_get_current_user\<close>, \<^verbatim>\<open>_same_origin_post\<close>, \<^verbatim>\<open>_create_session\<close>
  and the two request handlers \<^verbatim>\<open>_handle_app_get\<close> and \<^verbatim>\<open>_handle_app_post\<close>.

  Python strings are \<^typ>\<open>string\<close>; a character is read as a code point below 256.
  Byte strings (salts, digests) are \<^typ>\<open>string\<close> as well.
\<close>

text \<open>\<^verbatim>\<open>str.isspace\<close> on code points below 256: TAB..CR, FS..US, space, NEL, NBSP.\<close>

definition isspace :: "char \<Rightarrow> bool" where
  "isspace c = (let n = (of_char c :: nat) in
     (9 \<le> n \<and> n \<le> 13) \<or> (28 \<le> n \<and> n \<le> 32) \<or> n = 133 \<or> n = 160)"

text \<open>\<^verbatim>\<open>s.strip()\<close>\<close>

definition strip :: "string \<Rightarrow> string" where
  "strip s = rev (dropWhile isspace (rev (dropWhile isspace s)))"

text \<open>\<^verbatim>\<open>s.lower()\<close> on code points below 256: A..Z and the capital letters
  U+00C0..U+00DE (without the multiplication sign U+00D7) move up by 32.\<close>

definition lower_char :: "char \<Rightarrow> char" where
  "lower_char c = (let n = (of_char c :: nat) in
     if (65 \<le> n \<and> n \<le> 90) \<or> (192 \<le> n \<and> n \<le> 222 \<and> n \<noteq> 215)
     then char_of (n + 32) else c)"

definition lower :: "string \<Rightarrow> string" where
  "lower s = map lower_char s"

text \<open>\<^verbatim>\<open>s.split(c)\<close> for a one-character separator.\<close>

fun split_on :: "char \<Rightarrow> string \<Rightarrow> string list" where
  "split_on c [] = [[]]"
| "split_on c (x # xs) =
     (if x = c then [] # split_on c xs
      else (case split_on c xs of [] \<Rightarrow> [[x]] | w # ws \<Rightarrow> (x # w) # ws))"

text \<open>\<^verbatim>\<open>s.split(c, 1)\<close> when \<^verbatim>\<open>c in s\<close>: the part before the first separator and
  the part after it.\<close>

definition before_first :: "char \<Rightarrow> string \<Rightarrow> string" where
  "before_first c s = takeWhile (\<lambda>x. x \<noteq> c) s"

definition after_first :: "char \<Rightarrow> string \<Rightarrow> string" where
  "after_first c s = tl (dropWhile (\<lambda>x. x \<noteq> c) s)"

text \<open>
  Functions of the Python library the code calls and whose source is not part of the
  repository are parameters of the model:
  \<^item> \<open>sha256 raw\<close> is \<^verbatim>\<open>hashlib.sha256(raw.encode("utf-8")).digest()\<close>;
  \<^item> \<open>scrypt password salt\<close> is \<^verbatim>\<open>hashlib.scrypt(password.encode("utf-8"), salt=salt, n=2**14, r=8, p=1, dklen=64)\<close>;
  \<^item> \<open>netloc url\<close> is \<^verbatim>\<open>urllib.parse.urlparse(url).netloc\<close>, \<open>None\<close> when it raises;
  \<^item> \<open>to_int s\<close> is \<^verbatim>\<open>int(s)\<close>, \<open>None\<close> when it raises.
\<close>

record pylib =
  sha256 :: "string \<Rightarrow> string"
  scrypt :: "string \<Rightarrow> string \<Rightarrow> string"
  netloc :: "string \<Rightarrow> string option"
  to_int :: "string \<Rightarrow> int option"

definition normalize_email :: "string \<Rightarrow> string" where
  "normalize_email raw = lower (strip raw)"

definition is_emailish :: "string \<Rightarrow> bool" where
  "is_emailish s0 = (let s = strip s0 in
     CHR ''@'' \<in> set s \<and> CHR ''.'' \<in> set (after_first (CHR ''@'') s))"

definition password_hash :: "pylib \<Rightarrow> string \<Rightarrow> string \<Rightarrow> string" where
  "password_hash L password salt = scrypt L password salt"

definition sha256_bytes :: "pylib \<Rightarrow> string \<Rightarrow> string" where
  "sha256_bytes L raw = sha256 L raw"

text \<open>\<^verbatim>\<open>_parse_cookies\<close>: later parts overwrite earlier ones with the same name.\<close>

definition parse_cookies :: "string option \<Rightarrow> (string \<rightharpoonup> string)" where
  "parse_cookies header_value =
     (case header_value of
        None \<Rightarrow> Map.empty
      | Some h \<Rightarrow>
          if h = [] then Map.empty
          else foldl (\<lambda>out part.
                 if CHR ''='' \<notin> set part then out
                 else out(strip (before_first (CHR ''='') part)
                            \<mapsto> strip (after_first (CHR ''='') part)))
               Map.empty (split_on (CHR '';'') h))"

section \<open>The store\<close>

text \<open>
  The three tables of \<^verbatim>\<open>_ensure_db\<close>, each a list of rows in insertion order. The
  columns \<^verbatim>\<open>is_admin\<close> and \<^verbatim>\<open>disabled\<close> only ever receive 0 or 1 and are booleans.
  The \<open>_seq\<close> fields are the AUTOINCREMENT counters: the largest id ever handed out.
\<close>

record user_row =
  u_id :: int
  u_email :: string
  u_email_norm :: string
  u_pass_salt :: string
  u_pass_hash :: string
  u_is_admin :: bool
  u_disabled :: bool
  u_created_at :: int

record session_row =
  s_id :: int
  s_user_id :: int
  s_token_hash :: string
  s_created_at :: int
  s_last_seen_at :: int
  s_expires_at :: int

record reset_row =
  r_id :: int
  r_user_id :: int
  r_selector :: string
  r_verifier_hash :: string
  r_created_at :: int
  r_expires_at :: int
  r_used_at :: "int option"

record db =
  users :: "user_row list"
  sessions :: "session_row list"
  password_reset_tokens :: "reset_row list"
  user_seq :: int
  session_seq :: int
  reset_seq :: int

definition empty_db :: db where
  "empty_db = \<lparr>users = [], sessions = [], password_reset_tokens = [],
               user_seq = 0, session_seq = 0, reset_seq = 0\<rparr>"

text \<open>\<^verbatim>\<open>INSERT INTO users(...)\<close>: \<open>None\<close> is the \<^verbatim>\<open>sqlite3.IntegrityError\<close> of the
  UNIQUE constraint on \<^verbatim>\<open>email_norm\<close>.\<close>

definition insert_user ::
  "string \<Rightarrow> string \<Rightarrow> string \<Rightarrow> string \<Rightarrow> bool \<Rightarrow> bool \<Rightarrow> int \<Rightarrow> db \<Rightarrow> db option" where
  "insert_user email email_n salt pwh adm dis now d =
     (if email_n \<in> u_email_norm ` set (users d) then None
      else Some (d\<lparr>users := users d @
                     [\<lparr>u_id = user_seq d + 1, u_email = email, u_email_norm = email_n,
                       u_pass_salt = salt, u_pass_hash = pwh, u_is_admin = adm,
                       u_disabled = dis, u_created_at = now\<rparr>],
                   user_seq := user_seq d + 1\<rparr>))"

text \<open>\<^verbatim>\<open>INSERT INTO sessions(...)\<close>: \<open>None\<close> is the IntegrityError of the UNIQUE
  constraint on \<^verbatim>\<open>token_hash\<close> or of the foreign key on \<^verbatim>\<open>user_id\<close>.\<close>

definition insert_session :: "int \<Rightarrow> string \<Rightarrow> int \<Rightarrow> int \<Rightarrow> int \<Rightarrow> db \<Rightarrow> db option" where
  "insert_session uid th created seen expires d =
     (if th \<in> s_token_hash ` set (sessions d) \<or> uid \<notin> u_id ` set (users d) then None
      else Some (d\<lparr>sessions := sessions d @
                     [\<lparr>s_id = session_seq d + 1, s_user_id = uid, s_token_hash = th,
                       s_created_at = created, s_last_seen_at = seen,
                       s_expires_at = expires\<rparr>],
                   session_seq := session_seq d + 1\<rparr>))"

text \<open>\<^verbatim>\<open>INSERT INTO password_reset_tokens(...)\<close> with \<^verbatim>\<open>used_at\<close> NULL: \<open>None\<close> is the
  IntegrityError of the UNIQUE constraint on \<^verbatim>\<open>selector\<close> or of the foreign key.\<close>

definition insert_reset :: "int \<Rightarrow> string \<Rightarrow> string \<Rightarrow> int \<Rightarrow> int \<Rightarrow> db \<Rightarrow> db option" where
  "insert_reset uid sel vh created expires d =
     (if sel \<in> r_selector ` set (password_reset_tokens d) \<or> uid \<notin> u_id ` set (users d)
      then None
      else Some (d\<lparr>password_reset_tokens := password_reset_tokens d @
                     [\<lparr>r_id = reset_seq d + 1, r_user_id = uid, r_selector = sel,
                       r_verifier_hash = vh, r_created_at = created,
                       r_expires_at = expires, r_used_at = None\<rparr>],
                   reset_seq := reset_seq d + 1\<rparr>))"

text \<open>\<^verbatim>\<open>DELETE FROM users WHERE id=?\<close> with the two \<^verbatim>\<open>ON DELETE CASCADE\<close> foreign
  keys: the rows of a deleted user go with it.\<close>

definition delete_user :: "int \<Rightarrow> db \<Rightarrow> db" where
  "delete_user uid d =
     (if uid \<in> u_id ` set (users d)
      then d\<lparr>users := filter (\<lambda>u. u_id u \<noteq> uid) (users d),
             sessions := filter (\<lambda>s. s_user_id s \<noteq> uid) (sessions d),
             password_reset_tokens :=
               filter (\<lambda>r. r_user_id r \<noteq> uid) (password_reset_tokens d)\<rparr>
      else d)"

text \<open>\<^verbatim>\<open>UPDATE users SET pass_salt=?, pass_hash=? WHERE id=?\<close>\<close>

definition update_password :: "int \<Rightarrow> string \<Rightarrow> string \<Rightarrow> db \<Rightarrow> db" where
  "update_password uid salt pwh d =
     d\<lparr>users := map (\<lambda>u. if u_id u = uid
                          then u\<lparr>u_pass_salt := salt, u_pass_hash := pwh\<rparr> else u)
                   (users d)\<rparr>"

text \<open>\<^verbatim>\<open>UPDATE users SET disabled=? WHERE id=?\<close>\<close>

definition set_disabled :: "int \<Rightarrow> bool \<Rightarrow> db \<Rightarrow> db" where
  "set_disabled uid b d =
     d\<lparr>users := map (\<lambda>u. if u_id u = uid then u\<lparr>u_disabled := b\<rparr> else u) (users d)\<rparr>"

text \<open>\<^verbatim>\<open>UPDATE users SET is_admin=? WHERE id=?\<close>\<close>

definition set_admin :: "int \<Rightarrow> bool \<Rightarrow> db \<Rightarrow> db" where
  "set_admin uid b d =
     d\<lparr>users := map (\<lambda>u. if u_id u = uid then u\<lparr>u_is_admin := b\<rparr> else u) (users d)\<rparr>"

text \<open>\<^verbatim>\<open>SELECT COUNT(*) AS n FROM users WHERE is_admin=1\<close>\<close>

definition n_admin :: "db \<Rightarrow> nat" where
  "n_admin d = length (filter u_is_admin (users d))"

text \<open>\<^verbatim>\<open>SELECT ... FROM users WHERE id=?\<close> and \<^verbatim>\<open>WHERE email_norm=?\<close>, first row.\<close>

definition user_by_id :: "int \<Rightarrow> db \<Rightarrow> user_row option" where
  "user_by_id uid d = find (\<lambda>u. u_id u = uid) (users d)"

definition user_by_email :: "string \<Rightarrow> db \<Rightarrow> user_row option" where
  "user_by_email e d = find (\<lambda>u. u_email_norm u = e) (users d)"

section \<open>Sessions\<close>

text \<open>
  The values a request draws from outside: the readings of the wall clock (one in
  \<^verbatim>\<open>_get_current_user\<close>, one in the handler, one in \<^verbatim>\<open>_create_session\<close>) and the
  outputs of \<^verbatim>\<open>secrets\<close>.
\<close>

record fresh =
  clock_user :: int
  clock_now :: int
  clock_session :: int
  new_salt :: string
  new_token :: string
  new_selector :: string
  new_verifier :: string

text \<open>The headers the code reads, each as \<^verbatim>\<open>handler.headers.get(name)\<close> returns it.\<close>

record headers =
  h_host :: "string option"
  h_origin :: "string option"
  h_referer :: "string option"
  h_cookie :: "string option"

text \<open>The row \<^verbatim>\<open>_get_current_user\<close> returns.\<close>

record current_user =
  cu_session_id :: int
  cu_user_id :: int
  cu_email :: string
  cu_is_admin :: bool
  cu_disabled :: bool

text \<open>\<^verbatim>\<open>_create_session\<close>: \<open>None\<close> when the INSERT raises.\<close>

definition create_session :: "pylib \<Rightarrow> fresh \<Rightarrow> int \<Rightarrow> db \<Rightarrow> (string \<times> int \<times> db) option" where
  "create_session L fr uid d =
     (let token = new_token fr;
          now = clock_session fr;
          expires_at = now + 60 * 60 * 24 * 14
      in case insert_session uid (sha256_bytes L token) now now expires_at d of
           None \<Rightarrow> None
         | Some d' \<Rightarrow> Some (token, expires_at, d'))"

text \<open>The rows of \<^verbatim>\<open>sessions s JOIN users u ON u.id = s.user_id\<close> that satisfy
  \<^verbatim>\<open>s.token_hash = ? AND s.expires_at > ?\<close>.\<close>

definition session_join :: "string \<Rightarrow> int \<Rightarrow> db \<Rightarrow> (session_row \<times> user_row) list" where
  "session_join th now d =
     [(s, u). s \<leftarrow> sessions d, u \<leftarrow> users d,
              u_id u = s_user_id s \<and> s_token_hash s = th \<and> s_expires_at s > now]"

text \<open>\<^verbatim>\<open>UPDATE sessions SET last_seen_at=? WHERE id=?\<close>\<close>

definition touch_session :: "int \<Rightarrow> int \<Rightarrow> db \<Rightarrow> db" where
  "touch_session sid now d =
     d\<lparr>sessions := map (\<lambda>s. if s_id s = sid then s\<lparr>s_last_seen_at := now\<rparr> else s)
                      (sessions d)\<rparr>"

definition get_current_user ::
  "pylib \<Rightarrow> headers \<Rightarrow> fresh \<Rightarrow> db \<Rightarrow> current_user option \<times> db" where
  "get_current_user L hs fr d =
     (case parse_cookies (h_cookie hs) ''bi_session'' of
        None \<Rightarrow> (None, d)
      | Some token \<Rightarrow>
          if token = [] then (None, d)
          else (let now = clock_user fr;
                    token_hash = sha256_bytes L token
                in case session_join token_hash now d of
                     [] \<Rightarrow> (None, d)
                   | (s, u) # _ \<Rightarrow>
                       (Some \<lparr>cu_session_id = s_id s, cu_user_id = s_user_id s,
                              cu_email = u_email u, cu_is_admin = u_is_admin u,
                              cu_disabled = u_disabled u\<rparr>,
                        touch_session (s_id s) now d)))"

text \<open>\<^verbatim>\<open>_same_origin_post\<close>\<close>

definition header_or_empty :: "string option \<Rightarrow> string" where
  "header_or_empty v = (case v of None \<Rightarrow> [] | Some s \<Rightarrow> s)"

definition same_origin_post :: "pylib \<Rightarrow> headers \<Rightarrow> bool" where
  "same_origin_post L hs =
     (let host = strip (header_or_empty (h_host hs)) in
      if host = [] then False
      else (let origin = strip (header_or_empty (h_origin hs));
                referer = strip (header_or_empty (h_referer hs));
                candidate = (if origin \<noteq> [] then origin else referer)
            in if candidate = [] then True
               else (case netloc L candidate of
                       None \<Rightarrow> False
                     | Some n \<Rightarrow> n = host)))"

section \<open>Responses\<close>

text \<open>
  What a handler sends back.
  \<^item> \<open>Html status title body\<close> is \<^verbatim>\<open>_send_html(self, title=..., status=..., body_html=...)\<close>
    with a literal body.
  \<^item> \<open>Page status title heading\<close> is a \<^verbatim>\<open>_send_html\<close> of \<^verbatim>\<open>_handle_app_get\<close> whose body is a
    form or table rendered from the user row; only its \<^verbatim>\<open>h1\<close> heading is kept.
  \<^item> \<open>ResetLinkHtml token\<close> is the status 200 page titled "Reset password" of \<^verbatim>\<open>/app/reset\<close>
    whose body is \<^verbatim>\<open><h1>Reset password</h1><p class='ok'>Reset link created (dev).</p>\<close>
    followed by the link \<^verbatim>\<open>/app/reset/confirm?token=...\<close>, the line
    \<^verbatim>\<open><p class='muted'>Token: <code>token</code></p>\<close> and the back link.
  \<^item> \<open>Redirect location\<close> is \<^verbatim>\<open>_redirect(self, location)\<close>, status 303.
  \<^item> \<open>RedirectAdminMsg msg\<close> is \<^verbatim>\<open>_redirect(self, "/app/admin?msg=" + urllib.parse.quote(msg))\<close>.
  \<^item> \<open>SessionCookieRedirect location token max_age\<close> is the 303 response that sets the
    \<^verbatim>\<open>bi_session\<close> cookie.
  \<^item> \<open>ClearCookieRedirect location\<close> is the 303 response that clears it.
  \<^item> \<open>Aborted\<close>: an exception left the handler; nothing is written and the \<^verbatim>\<open>with\<close> block
    of the connection rolls the transaction back.
\<close>

datatype response =
    Html nat string string
  | Page nat string string
  | ResetLinkHtml string
  | Redirect string
  | RedirectAdminMsg string
  | SessionCookieRedirect string string int
  | ClearCookieRedirect string
  | Aborted

definition page_login_invalid :: response where
  "page_login_invalid = Html 400 ''Login''
     ''<h1>Login</h1><p class='error'>Invalid email or password.</p><p><a href='/app/login'>Back</a></p>''"

definition page_login_disabled :: response where
  "page_login_disabled = Html 403 ''Login''
     ''<h1>Login</h1><p class='error'>This account is disabled.</p><p><a href='/app/login'>Back</a></p>''"

definition page_register_invalid :: response where
  "page_register_invalid = Html 400 ''Register''
     ''<h1>Register</h1><p class='error'>Use a valid email and a password of at least 8 characters.</p><p><a href='/app/register'>Back</a></p>''"

definition page_register_duplicate :: response where
  "page_register_duplicate = Html 400 ''Register''
     ''<h1>Register</h1><p class='error'>That email is already registered.</p><p><a href='/app/register'>Back</a></p>''"

definition page_account_disabled :: response where
  "page_account_disabled = Html 403 ''Account''
     ''<h1>Account</h1><p class='error'>Account disabled.</p>''"

definition page_new_password_short :: response where
  "page_new_password_short = Html 400 ''Account''
     ''<h1>Account</h1><p class='error'>New password must be at least 8 characters.</p><p><a href='/app/account'>Back</a></p>''"

definition page_current_password_incorrect :: response where
  "page_current_password_incorrect = Html 400 ''Account''
     ''<h1>Account</h1><p class='error'>Current password is incorrect.</p><p><a href='/app/account'>Back</a></p>''"

definition page_password_incorrect :: response where
  "page_password_incorrect = Html 400 ''Account''
     ''<h1>Account</h1><p class='error'>Password is incorrect.</p><p><a href='/app/account'>Back</a></p>''"

definition page_reset_generic :: response where
  "page_reset_generic = Html 200 ''Reset password''
     ''<h1>Reset password</h1><p class='ok'>If the account exists, a reset link has been created.</p><p><a href='/app/login'>Back to login</a></p>''"

definition page_confirm_short :: response where
  "page_confirm_short = Html 400 ''Confirm reset''
     ''<h1>Set new password</h1><p class='error'>Password must be at least 8 characters.</p>''"

definition page_confirm_invalid :: response where
  "page_confirm_invalid = Html 400 ''Confirm reset''
     ''<h1>Set new password</h1><p class='error'>Invalid token.</p>''"

definition page_confirm_expired :: response where
  "page_confirm_expired = Html 400 ''Confirm reset''
     ''<h1>Set new password</h1><p class='error'>Token expired or already used.</p>''"

definition page_confirm_ok :: response where
  "page_confirm_ok = Html 200 ''Password reset''
     ''<h1>Password updated</h1><p class='ok'>You can now log in with your new password.</p><p><a href='/app/login'>Login</a></p>''"

definition page_forbidden :: response where
  "page_forbidden = Html 403 ''Admin''
     ''<h1>Forbidden</h1><p class='error'>Admin access required.</p>''"

definition page_post_not_found :: response where
  "page_post_not_found = Html 404 ''Not Found''
     ''<h1>Not Found</h1><p class='muted'>Unknown POST route.</p>''"

definition page_get_not_found :: response where
  "page_get_not_found = Html 404 ''Not Found''
     ''<h1>Not Found</h1><p class='muted'>Unknown /app route.</p>''"

definition page_origin_failed :: response where
  "page_origin_failed = Html 400 ''Bad Request''
     ''<h1>Bad Request</h1><p class='error'>Origin check failed.</p>''"

section \<open>The POST routes\<close>

text \<open>
  \<^verbatim>\<open>_handle_app_post\<close> is one function of many \<^verbatim>\<open>if path == ...\<close> blocks; each block is a
  definition here, in the order of the source. A block receives the parsed form, the
  row of the current user and the store as \<^verbatim>\<open>_get_current_user\<close> left it, and returns
  the response with the store to commit, or \<open>None\<close> when an exception leaves the block.
\<close>

type_synonym form = "string \<rightharpoonup> string"

text \<open>\<^verbatim>\<open>form.get(k) or dflt\<close>\<close>

definition form_get_or :: "form \<Rightarrow> string \<Rightarrow> string \<Rightarrow> string" where
  "form_get_or f k dflt = (case f k of None \<Rightarrow> dflt | Some v \<Rightarrow> if v = [] then dflt else v)"

definition form_get :: "form \<Rightarrow> string \<Rightarrow> string" where
  "form_get f k = form_get_or f k []"

definition post_login ::
  "pylib \<Rightarrow> form \<Rightarrow> fresh \<Rightarrow> current_user option \<Rightarrow> db \<Rightarrow> (response \<times> db) option" where
  "post_login L f fr user d =
     (case user of
        Some _ \<Rightarrow> Some (Redirect ''/app/account'', d)
      | None \<Rightarrow>
          (let email = normalize_email (form_get f ''email'');
               password = form_get f ''password''
           in if \<not> is_emailish email \<or> password = [] then Some (page_login_invalid, d)
              else (case user_by_email email d of
                      None \<Rightarrow> Some (page_login_invalid, d)
                    | Some row \<Rightarrow>
                        if u_disabled row then Some (page_login_disabled, d)
                        else if password_hash L password (u_pass_salt row) \<noteq> u_pass_hash row
                        then Some (page_login_invalid, d)
                        else (case create_session L fr (u_id row) d of
                                None \<Rightarrow> None
                              | Some (token, expires_at, d') \<Rightarrow>
                                  Some (SessionCookieRedirect ''/app/account'' token
                                          (expires_at - clock_now fr), d')))))"

definition post_register ::
  "pylib \<Rightarrow> form \<Rightarrow> fresh \<Rightarrow> current_user option \<Rightarrow> db \<Rightarrow> (response \<times> db) option" where
  "post_register L f fr user d =
     (case user of
        Some _ \<Rightarrow> Some (Redirect ''/app/account'', d)
      | None \<Rightarrow>
          (let email = normalize_email (form_get f ''email'');
               password = form_get f ''password''
           in if \<not> is_emailish email \<or> length password < 8
              then Some (page_register_invalid, d)
              else (let existing = length (users d);
                        is_admin = (existing = 0);
                        salt = new_salt fr;
                        pwh = password_hash L password salt
                    in case insert_user email email salt pwh is_admin False (clock_now fr) d of
                         None \<Rightarrow> Some (page_register_duplicate, d)
                       | Some d1 \<Rightarrow>
                           (case user_by_email email d1 of
                              None \<Rightarrow> None
                            | Some row \<Rightarrow>
                                (case create_session L fr (u_id row) d1 of
                                   None \<Rightarrow> None
                                 | Some (token, expires_at, d2) \<Rightarrow>
                                     Some (SessionCookieRedirect ''/app/account'' token
                                             (expires_at - clock_now fr), d2))))))"

definition post_change_password ::
  "pylib \<Rightarrow> form \<Rightarrow> fresh \<Rightarrow> current_user option \<Rightarrow> db \<Rightarrow> (response \<times> db) option" where
  "post_change_password L f fr user d =
     (case user of
        None \<Rightarrow> Some (Redirect ''/app/login'', d)
      | Some cu \<Rightarrow>
          if cu_disabled cu then Some (page_account_disabled, d)
          else (let current_password = form_get f ''current_password'';
                    new_password = form_get f ''new_password''
                in if length new_password < 8 then Some (page_new_password_short, d)
                   else (case user_by_id (cu_user_id cu) d of
                           None \<Rightarrow> Some (Redirect ''/app/logout'', d)
                         | Some row \<Rightarrow>
                             if password_hash L current_password (u_pass_salt row)
                                  \<noteq> u_pass_hash row
                             then Some (page_current_password_incorrect, d)
                             else (let salt = new_salt fr;
                                       pwh = password_hash L new_password salt
                                   in Some (Redirect ''/app/account'',
                                            update_password (cu_user_id cu) salt pwh d)))))"

definition post_account_delete ::
  "pylib \<Rightarrow> form \<Rightarrow> fresh \<Rightarrow> current_user option \<Rightarrow> db \<Rightarrow> (response \<times> db) option" where
  "post_account_delete L f fr user d =
     (case user of
        None \<Rightarrow> Some (Redirect ''/app/login'', d)
      | Some cu \<Rightarrow>
          (let password = form_get f ''password''
           in case user_by_id (cu_user_id cu) d of
                None \<Rightarrow> Some (Redirect ''/app/logout'', d)
              | Some row \<Rightarrow>
                  if password_hash L password (u_pass_salt row) \<noteq> u_pass_hash row
                  then Some (page_password_incorrect, d)
                  else Some (ClearCookieRedirect ''/app/register'',
                             delete_user (cu_user_id cu) d)))"

text \<open>\<^verbatim>\<open>SELECT id FROM users WHERE email_norm=? AND disabled=0\<close>\<close>

definition enabled_user_by_email :: "string \<Rightarrow> db \<Rightarrow> user_row option" where
  "enabled_user_by_email e d = find (\<lambda>u. u_email_norm u = e \<and> \<not> u_disabled u) (users d)"

definition post_reset ::
  "pylib \<Rightarrow> form \<Rightarrow> fresh \<Rightarrow> current_user option \<Rightarrow> db \<Rightarrow> (response \<times> db) option" where
  "post_reset L f fr user d =
     (case user of
        Some _ \<Rightarrow> Some (Redirect ''/app/account'', d)
      | None \<Rightarrow>
          (let email = normalize_email (form_get f ''email'')
           in case enabled_user_by_email email d of
                None \<Rightarrow> Some (page_reset_generic, d)
              | Some row \<Rightarrow>
                  (let user_id = u_id row;
                       selector = new_selector fr;
                       verifier = new_verifier fr;
                       verifier_hash = sha256_bytes L verifier;
                       expires_at = clock_now fr + 60 * 60
                   in case insert_reset user_id selector verifier_hash (clock_now fr)
                             expires_at d of
                        None \<Rightarrow> None
                      | Some d' \<Rightarrow>
                          Some (ResetLinkHtml (selector @ ''.'' @ verifier), d'))))"

text \<open>\<^verbatim>\<open>UPDATE password_reset_tokens SET used_at=? WHERE id=?\<close>\<close>

definition mark_used :: "int \<Rightarrow> int \<Rightarrow> db \<Rightarrow> db" where
  "mark_used rid now d =
     d\<lparr>password_reset_tokens :=
         map (\<lambda>r. if r_id r = rid then r\<lparr>r_used_at := Some now\<rparr> else r)
             (password_reset_tokens d)\<rparr>"

text \<open>\<^verbatim>\<open>DELETE FROM sessions WHERE user_id=?\<close>\<close>

definition delete_sessions_of :: "int \<Rightarrow> db \<Rightarrow> db" where
  "delete_sessions_of uid d = d\<lparr>sessions := filter (\<lambda>s. s_user_id s \<noteq> uid) (sessions d)\<rparr>"

text \<open>\<^verbatim>\<open>DELETE FROM sessions WHERE token_hash=?\<close>\<close>

definition delete_session_by_hash :: "string \<Rightarrow> db \<Rightarrow> db" where
  "delete_session_by_hash th d =
     d\<lparr>sessions := filter (\<lambda>s. s_token_hash s \<noteq> th) (sessions d)\<rparr>"

text \<open>\<^verbatim>\<open>SELECT ... FROM password_reset_tokens WHERE selector=?\<close>, first row.\<close>

definition reset_by_selector :: "string \<Rightarrow> db \<Rightarrow> reset_row option" where
  "reset_by_selector sel d = find (\<lambda>r. r_selector r = sel) (password_reset_tokens d)"

definition post_reset_confirm ::
  "pylib \<Rightarrow> form \<Rightarrow> fresh \<Rightarrow> current_user option \<Rightarrow> db \<Rightarrow> (response \<times> db) option" where
  "post_reset_confirm L f fr user d =
     (case user of
        Some _ \<Rightarrow> Some (Redirect ''/app/account'', d)
      | None \<Rightarrow>
          (let token = strip (form_get f ''token'');
               new_password = form_get f ''new_password'';
               now = clock_now fr
           in if length new_password < 8 then Some (page_confirm_short, d)
              else if CHR ''.'' \<notin> set token then Some (page_confirm_invalid, d)
              else (let selector = before_first (CHR ''.'') token;
                        verifier = after_first (CHR ''.'') token
                    in case reset_by_selector selector d of
                         None \<Rightarrow> Some (page_confirm_expired, d)
                       | Some row \<Rightarrow>
                           if r_used_at row \<noteq> None \<or> r_expires_at row \<le> now
                           then Some (page_confirm_expired, d)
                           else if sha256_bytes L verifier \<noteq> r_verifier_hash row
                           then Some (page_confirm_invalid, d)
                           else (let salt = new_salt fr;
                                     pwh = password_hash L new_password salt
                                 in Some (page_confirm_ok,
                                          delete_sessions_of (r_user_id row)
                                            (mark_used (r_id row) now
                                               (update_password (r_user_id row) salt pwh d)))))))"

section \<open>The admin routes\<close>

text \<open>The blocks under \<^verbatim>\<open>if path.startswith("/app/admin/")\<close>, after the two checks on the
  current user. The \<^verbatim>\<open>try\<close> of each block turns a failing \<^verbatim>\<open>int(...)\<close> into the
  "Invalid request" redirect.\<close>

definition admin_create_user :: "pylib \<Rightarrow> form \<Rightarrow> fresh \<Rightarrow> db \<Rightarrow> (response \<times> db) option" where
  "admin_create_user L f fr d =
     (let email = normalize_email (form_get f ''email'');
          password = form_get f ''password'';
          is_admin = (f ''is_admin'' = Some ''1'')
      in if \<not> is_emailish email \<or> length password < 8
         then Some (RedirectAdminMsg ''Invalid email or password too short'', d)
         else (let salt = new_salt fr;
                   pwh = password_hash L password salt
               in case insert_user email email salt pwh is_admin False (clock_now fr) d of
                    None \<Rightarrow> Some (RedirectAdminMsg ''Email already exists'', d)
                  | Some d' \<Rightarrow> Some (RedirectAdminMsg ''User created'', d')))"

definition admin_toggle_disabled :: "pylib \<Rightarrow> form \<Rightarrow> fresh \<Rightarrow> db \<Rightarrow> (response \<times> db) option" where
  "admin_toggle_disabled L f fr d =
     (case to_int L (form_get_or f ''user_id'' ''0'') of
        None \<Rightarrow> Some (RedirectAdminMsg ''Invalid request'', d)
      | Some user_id \<Rightarrow>
          (case to_int L (form_get_or f ''disabled'' ''0'') of
             None \<Rightarrow> Some (RedirectAdminMsg ''Invalid request'', d)
           | Some i \<Rightarrow>
               Some (RedirectAdminMsg ''Updated'', set_disabled user_id (i \<noteq> 0) d)))"

definition admin_toggle_admin :: "pylib \<Rightarrow> form \<Rightarrow> fresh \<Rightarrow> db \<Rightarrow> (response \<times> db) option" where
  "admin_toggle_admin L f fr d =
     (case to_int L (form_get_or f ''user_id'' ''0'') of
        None \<Rightarrow> Some (RedirectAdminMsg ''Invalid request'', d)
      | Some user_id \<Rightarrow>
          (case to_int L (form_get_or f ''is_admin'' ''0'') of
             None \<Rightarrow> Some (RedirectAdminMsg ''Invalid request'', d)
           | Some i \<Rightarrow>
               (let is_admin = (i \<noteq> 0)
                in if \<not> is_admin \<and>
                      (case user_by_id user_id d of
                         None \<Rightarrow> False
                       | Some row \<Rightarrow> u_is_admin row \<and> n_admin d \<le> 1)
                   then Some (RedirectAdminMsg ''Cannot remove the last admin'', d)
                   else Some (RedirectAdminMsg ''Updated'', set_admin user_id is_admin d))))"

definition admin_create_reset :: "pylib \<Rightarrow> form \<Rightarrow> fresh \<Rightarrow> db \<Rightarrow> (response \<times> db) option" where
  "admin_create_reset L f fr d =
     (case to_int L (form_get_or f ''user_id'' ''0'') of
        None \<Rightarrow> Some (RedirectAdminMsg ''Invalid request'', d)
      | Some target_user_id \<Rightarrow>
          (case user_by_id target_user_id d of
             None \<Rightarrow> Some (RedirectAdminMsg ''User not found'', d)
           | Some row \<Rightarrow>
               (let selector = new_selector fr;
                    verifier = new_verifier fr;
                    verifier_hash = sha256_bytes L verifier;
                    expires_at = clock_now fr + 60 * 60
                in case insert_reset target_user_id selector verifier_hash (clock_now fr)
                          expires_at d of
                     None \<Rightarrow> None
                   | Some d' \<Rightarrow>
                       Some (RedirectAdminMsg
                               (''Reset token (dev): '' @ selector @ ''.'' @ verifier), d'))))"

definition admin_delete_user :: "pylib \<Rightarrow> form \<Rightarrow> fresh \<Rightarrow> db \<Rightarrow> (response \<times> db) option" where
  "admin_delete_user L f fr d =
     (case to_int L (form_get_or f ''user_id'' ''0'') of
        None \<Rightarrow> Some (RedirectAdminMsg ''Invalid request'', d)
      | Some target_user_id \<Rightarrow>
          if (case user_by_id target_user_id d of
                None \<Rightarrow> False
              | Some target \<Rightarrow> u_is_admin target \<and> n_admin d \<le> 1)
          then Some (RedirectAdminMsg ''Cannot delete the last admin'', d)
          else Some (RedirectAdminMsg ''User deleted'', delete_user target_user_id d))"

text \<open>\<^verbatim>\<open>s.startswith(p)\<close>\<close>

definition startswith :: "string \<Rightarrow> string \<Rightarrow> bool" where
  "startswith s p = (take (length p) s = p)"

definition post_admin ::
  "pylib \<Rightarrow> string \<Rightarrow> form \<Rightarrow> fresh \<Rightarrow> current_user option \<Rightarrow> db \<Rightarrow> (response \<times> db) option" where
  "post_admin L path f fr user d =
     (case user of
        None \<Rightarrow> Some (Redirect ''/app/login'', d)
      | Some cu \<Rightarrow>
          if \<not> cu_is_admin cu then Some (page_forbidden, d)
          else if path = ''/app/admin/create-user'' then admin_create_user L f fr d
          else if path = ''/app/admin/toggle-disabled'' then admin_toggle_disabled L f fr d
          else if path = ''/app/admin/toggle-admin'' then admin_toggle_admin L f fr d
          else if path = ''/app/admin/create-reset'' then admin_create_reset L f fr d
          else if path = ''/app/admin/delete-user'' then admin_delete_user L f fr d
          else Some (page_post_not_found, d))"

section \<open>The handlers\<close>

definition post_routes ::
  "pylib \<Rightarrow> string \<Rightarrow> form \<Rightarrow> fresh \<Rightarrow> current_user option \<Rightarrow> db \<Rightarrow> (response \<times> db) option" where
  "post_routes L path f fr user d =
     (if path = ''/app/login'' then post_login L f fr user d
      else if path = ''/app/register'' then post_register L f fr user d
      else if path = ''/app/account/change-password'' then post_change_password L f fr user d
      else if path = ''/app/account/delete'' then post_account_delete L f fr user d
      else if path = ''/app/reset'' then post_reset L f fr user d
      else if path = ''/app/reset/confirm'' then post_reset_confirm L f fr user d
      else if startswith path ''/app/admin/'' then post_admin L path f fr user d
      else Some (page_post_not_found, d))"

text \<open>\<^verbatim>\<open>with _db_connect() as conn:\<close> commits when the block is left by \<^verbatim>\<open>return\<close> and
  rolls back to the store of the start when an exception leaves it.\<close>

definition with_conn :: "db \<Rightarrow> (response \<times> db) option \<Rightarrow> response \<times> db" where
  "with_conn d0 r = (case r of None \<Rightarrow> (Aborted, d0) | Some (resp, d) \<Rightarrow> (resp, d))"

text \<open>\<^verbatim>\<open>_handle_app_post\<close>, from the parsed form on.\<close>

definition handle_app_post ::
  "pylib \<Rightarrow> headers \<Rightarrow> string \<Rightarrow> form \<Rightarrow> fresh \<Rightarrow> db \<Rightarrow> response \<times> db" where
  "handle_app_post L hs path f fr d0 =
     (if \<not> same_origin_post L hs then (page_origin_failed, d0)
      else (case get_current_user L hs fr d0 of
              (user, d) \<Rightarrow> with_conn d0 (post_routes L path f fr user d)))"

text \<open>\<^verbatim>\<open>_handle_app_get\<close>; the only route that writes besides the touch of
  \<^verbatim>\<open>_get_current_user\<close> is \<^verbatim>\<open>/app/logout\<close>.\<close>

definition handle_app_get ::
  "pylib \<Rightarrow> headers \<Rightarrow> string \<Rightarrow> fresh \<Rightarrow> db \<Rightarrow> response \<times> db" where
  "handle_app_get L hs path fr d0 =
     (case get_current_user L hs fr d0 of
        (user, d) \<Rightarrow>
          if path = ''/app'' then
            (if user = None then (Redirect ''/app/login'', d)
             else (Redirect ''/app/account'', d))
          else if path = ''/app/login'' then
            (if user \<noteq> None then (Redirect ''/app/account'', d)
             else (Page 200 ''Login'' ''Login'', d))
          else if path = ''/app/register'' then
            (if user \<noteq> None then (Redirect ''/app/account'', d)
             else (Page 200 ''Register'' ''Register'', d))
          else if path = ''/app/logout'' then
            (if user \<noteq> None then
               (case parse_cookies (h_cookie hs) ''bi_session'' of
                  None \<Rightarrow> (ClearCookieRedirect ''/app/login'', d)
                | Some token \<Rightarrow>
                    if token = [] then (ClearCookieRedirect ''/app/login'', d)
                    else (ClearCookieRedirect ''/app/login'',
                          delete_session_by_hash (sha256_bytes L token) d))
             else (ClearCookieRedirect ''/app/login'', d))
          else if path = ''/app/account'' then
            (case user of
               None \<Rightarrow> (Redirect ''/app/login'', d)
             | Some cu \<Rightarrow>
                 if cu_disabled cu then (Page 200 ''Account'' ''Account disabled'', d)
                 else (Page 200 ''Account'' ''Account'', d))
          else if path = ''/app/reset'' then
            (if user \<noteq> None then (Redirect ''/app/account'', d)
             else (Page 200 ''Reset password'' ''Reset password'', d))
          else if path = ''/app/reset/confirm'' then
            (if user \<noteq> None then (Redirect ''/app/account'', d)
             else (Page 200 ''Confirm reset'' ''Set new password'', d))
          else if path = ''/app/admin'' then
            (case user of
               None \<Rightarrow> (Redirect ''/app/login'', d)
             | Some cu \<Rightarrow>
                 if \<not> cu_is_admin cu then (Page 403 ''Admin'' ''Forbidden'', d)
                 else (Page 200 ''Admin'' ''Admin'', d))
          else (page_get_not_found, d))"

text \<open>A request to the \<^verbatim>\<open>/app\<close> routes, and the store after a sequence of them.\<close>

datatype request =
    GET headers string fresh
  | POST headers string form fresh

fun step :: "pylib \<Rightarrow> db \<Rightarrow> request \<Rightarrow> db" where
  "step L d (GET hs path fr) = snd (handle_app_get L hs path fr d)"
| "step L d (POST hs path f fr) = snd (handle_app_post L hs path f fr d)"

definition run :: "pylib \<Rightarrow> request list \<Rightarrow> db \<Rightarrow> db" where
  "run L rqs d = foldl (step L) d rqs"

section \<open>Constraints of the schema\<close>

text \<open>
  What the schema of \<^verbatim>\<open>_ensure_db\<close> guarantees of every stored state: the primary keys,
  the UNIQUE columns, the two foreign keys (checked on every connection, which sets
  \<^verbatim>\<open>PRAGMA foreign_keys=ON\<close>) and the AUTOINCREMENT counters above every id in use.
\<close>

definition db_ok :: "db \<Rightarrow> bool" where
  "db_ok d \<longleftrightarrow>
     distinct (map u_id (users d)) \<and>
     distinct (map u_email_norm (users d)) \<and>
     distinct (map s_id (sessions d)) \<and>
     distinct (map s_token_hash (sessions d)) \<and>
     distinct (map r_id (password_reset_tokens d)) \<and>
     distinct (map r_selector (password_reset_tokens d)) \<and>
     (\<forall>s \<in> set (sessions d). s_user_id s \<in> u_id ` set (users d)) \<and>
     (\<forall>r \<in> set (password_reset_tokens d). r_user_id r \<in> u_id ` set (users d)) \<and>
     (\<forall>u \<in> set (users d). u_id u \<le> user_seq d) \<and>
     (\<forall>s \<in> set (sessions d). s_id s \<le> session_seq d) \<and>
     (\<forall>r \<in> set (password_reset_tokens d). r_id r \<le> reset_seq d)"

text \<open>The notions of the specification: an enabled administrator is a user with
  \<^verbatim>\<open>is_admin\<close> set and \<^verbatim>\<open>disabled\<close> unset.\<close>

definition enabled_admins :: "db \<Rightarrow> user_row list" where
  "enabled_admins d = filter (\<lambda>u. u_is_admin u \<and> \<not> u_disabled u) (users d)"

text \<open>The values a request drew from outside.\<close>

fun fresh_of :: "request \<Rightarrow> fresh" where
  "fresh_of (GET hs path fr) = fr"
| "fresh_of (POST hs path f fr) = fr"

section \<open>A library instance for the examples\<close>

text \<open>
  The examples run the model on concrete requests and need values for the library
  parameters. The two hashes are stand-ins that keep their input readable; \<open>ex_int\<close>
  reads a plain string of ASCII digits, on which it agrees with \<^verbatim>\<open>int\<close>; \<open>ex_netloc\<close>
  reads the authority of an \<^verbatim>\<open>http://\<close> URL.
\<close>

fun digits_value :: "nat \<Rightarrow> string \<Rightarrow> nat option" where
  "digits_value acc [] = Some acc"
| "digits_value acc (c # cs) =
     (let n = (of_char c :: nat) in
      if 48 \<le> n \<and> n \<le> 57 then digits_value (10 * acc + (n - 48)) cs else None)"

definition ex_int :: "string \<Rightarrow> int option" where
  "ex_int s = (if s = [] then None else map_option int (digits_value 0 s))"

definition ex_netloc :: "string \<Rightarrow> string option" where
  "ex_netloc url =
     (if startswith url ''http://'' then Some (before_first (CHR ''/'') (drop 7 url))
      else Some [])"

definition ex_lib :: pylib where
  "ex_lib = \<lparr>sha256 = (\<lambda>raw. ''sha256:'' @ raw),
             scrypt = (\<lambda>password salt. ''scrypt:'' @ salt @ '':'' @ password),
             netloc = ex_netloc,
             to_int = ex_int\<rparr>"

section \<open>Example requests and states\<close>

text \<open>
  Concrete requests for the examples, and the states they lead to from the empty store:
  \<open>ex_db1\<close> after the first registration (user 1, session token \<open>tokA\<close>), \<open>ex_db2\<close> after
  user 1 created the administrator 2, \<open>ex_db3\<close> after user 1 disabled user 2.
\<close>

definition ex_hs :: headers where
  "ex_hs = \<lparr>h_host = Some ''localhost:8000'', h_origin = None, h_referer = None,
            h_cookie = None\<rparr>"

definition ex_cookie :: "string \<Rightarrow> headers" where
  "ex_cookie token = ex_hs\<lparr>h_cookie := Some (''bi_session='' @ token)\<rparr>"

definition ex_fresh :: "int \<Rightarrow> string \<Rightarrow> fresh" where
  "ex_fresh now tag =
     \<lparr>clock_user = now, clock_now = now, clock_session = now,
      new_salt = ''salt'' @ tag, new_token = ''tok'' @ tag,
      new_selector = ''sel'' @ tag, new_verifier = ''ver'' @ tag\<rparr>"

definition ex_credentials :: "string \<Rightarrow> form" where
  "ex_credentials email = [''email'' \<mapsto> email, ''password'' \<mapsto> ''password1'']"

definition ex_db1 :: db where
  "ex_db1 = snd (handle_app_post ex_lib ex_hs ''/app/register''
                   (ex_credentials ''a@x.com'') (ex_fresh 100 ''A'') empty_db)"

definition ex_db2 :: db where
  "ex_db2 = snd (handle_app_post ex_lib (ex_cookie ''tokA'') ''/app/admin/create-user''
                   ((ex_credentials ''b@x.com'')(''is_admin'' \<mapsto> ''1''))
                   (ex_fresh 200 ''B'') ex_db1)"

definition ex_db3 :: db where
  "ex_db3 = snd (handle_app_post ex_lib (ex_cookie ''tokA'') ''/app/admin/toggle-disabled''
                   [''user_id'' \<mapsto> ''2'', ''disabled'' \<mapsto> ''1'']
                   (ex_fresh 300 ''C'') ex_db2)"

text \<open>Headers whose \<^verbatim>\<open>Host\<close> is a single vertical tab, without \<^verbatim>\<open>Origin\<close> and
  \<^verbatim>\<open>Referer\<close>.\<close>

definition ex_hs_blank_host :: headers where
  "ex_hs_blank_host = ex_hs\<lparr>h_host := Some [CHR 0x0B]\<rparr>"

text \<open>\<open>ex_db4\<close>: the state after user 1, the only administrator, disabled its own
  account; its session stays. \<open>ex_cu4\<close> is the row \<^verbatim>\<open>_get_current_user\<close> then returns for
  the token \<open>tokA\<close>.\<close>

definition ex_db4 :: db where
  "ex_db4 = snd (handle_app_post ex_lib (ex_cookie ''tokA'') ''/app/admin/toggle-disabled''
                   [''user_id'' \<mapsto> ''1'', ''disabled'' \<mapsto> ''1'']
                   (ex_fresh 200 ''B'') ex_db1)"

definition ex_cu4 :: current_user where
  "ex_cu4 = \<lparr>cu_session_id = 1, cu_user_id = 1, cu_email = ''a@x.com'',
             cu_is_admin = True, cu_disabled = True\<rparr>"

text \<open>Forms for \<^verbatim>\<open>/app/reset/confirm\<close> and \<^verbatim>\<open>/app/reset\<close>.\<close>

definition ex_confirm :: "string \<Rightarrow> form" where
  "ex_confirm token = [''token'' \<mapsto> token, ''new_password'' \<mapsto> ''newpassword1'']"

definition ex_email :: "string \<Rightarrow> form" where
  "ex_email email = [''email'' \<mapsto> email]"

text \<open>\<open>ex_db5\<close>: the state after a reset was requested for user 1 (token
  \<open>selR.verR\<close>, valid until 3800); \<open>ex_db6\<close>: the state after that token was redeemed.
  \<open>ex_later\<close> is a request that follows: a login that opens a session with token \<open>tokB\<close>.\<close>

definition ex_db5 :: db where
  "ex_db5 = snd (handle_app_post ex_lib ex_hs ''/app/reset'' (ex_email ''a@x.com'')
                   (ex_fresh 200 ''R'') ex_db1)"

definition ex_db6 :: db where
  "ex_db6 = snd (handle_app_post ex_lib ex_hs ''/app/reset/confirm''
                   (ex_confirm ''selR.verR'') (ex_fresh 300 ''S'') ex_db5)"

definition ex_later :: "request list" where
  "ex_later = [POST ex_hs ''/app/login''
                 [''email'' \<mapsto> ''a@x.com'', ''password'' \<mapsto> ''newpassword1'']
                 (ex_fresh 400 ''B'')]"

text \<open>\<open>ex_cu1\<close>: the row \<^verbatim>\<open>_get_current_user\<close> returns for the token \<open>tokA\<close> while user 1 is
  an enabled administrator.\<close>

definition ex_cu1 :: current_user where
  "ex_cu1 = \<lparr>cu_session_id = 1, cu_user_id = 1, cu_email = ''a@x.com'',
             cu_is_admin = True, cu_disabled = False\<rparr>"

text \<open>Forms of the admin routes that change a flag of a user or delete one.\<close>

definition ex_toggle_admin :: "string \<Rightarrow> string \<Rightarrow> form" where
  "ex_toggle_admin uid flag = [''user_id'' \<mapsto> uid, ''is_admin'' \<mapsto> flag]"

definition ex_toggle_disabled :: "string \<Rightarrow> string \<Rightarrow> form" where
  "ex_toggle_disabled uid flag = [''user_id'' \<mapsto> uid, ''disabled'' \<mapsto> flag]"

section \<open>Notions for sequences of requests\<close>

text \<open>The token hashes the \<^verbatim>\<open>sessions\<close> table holds, and the property of a selector that
  no record of it can be redeemed any more: every record with the selector has
  \<^verbatim>\<open>used_at\<close> set.\<close>

definition token_hashes :: "db \<Rightarrow> string set" where
  "token_hashes d = s_token_hash ` set (sessions d)"

definition spent :: "string \<Rightarrow> db \<Rightarrow> bool" where
  "spent sel d \<longleftrightarrow>
     (\<forall>r \<in> set (password_reset_tokens d). r_selector r = sel \<longrightarrow> r_used_at r \<noteq> None)"

section \<open>Basic facts\<close>

lemma get_current_user_None: "get_current_user L hs fr d = (None, d') \<Longrightarrow> d' = d"
  by (auto simp: get_current_user_def Let_def
      split: option.splits list.splits if_splits prod.splits)

lemma users_touch_session [simp]: "users (touch_session sid now d) = users d"
  by (simp add: touch_session_def)

lemma tokens_touch_session [simp]:
  "password_reset_tokens (touch_session sid now d) = password_reset_tokens d"
  by (simp add: touch_session_def)

lemma get_current_user_users: "get_current_user L hs fr d = (u, d') \<Longrightarrow> users d' = users d"
  by (auto simp: get_current_user_def Let_def
      split: option.splits list.splits if_splits prod.splits)

lemma create_session_users:
  "create_session L fr uid d = Some (t, e, d') \<Longrightarrow> users d' = users d"
  by (auto simp: create_session_def insert_session_def Let_def split: option.splits if_splits)

lemma set_session_join:
  "set (session_join th now d) =
     {(s, u). s \<in> set (sessions d) \<and> u \<in> set (users d) \<and> u_id u = s_user_id s \<and>
              s_token_hash s = th \<and> s_expires_at s > now}"
  by (auto simp: session_join_def)

lemma touch_session_distinct:
  assumes "distinct (map s_id ss)" and "s \<in> set ss"
  shows "map (\<lambda>x. if s_id x = s_id s then x\<lparr>s_last_seen_at := now\<rparr> else x) ss =
         map (\<lambda>x. if x = s then x\<lparr>s_last_seen_at := now\<rparr> else x) ss"
  using assms by (auto simp: distinct_map inj_on_def)

section \<open>Resolution of a session token\<close>

text \<open>
  Claim C7. In a store that satisfies the schema, a request that presents the non-empty
  token \<open>t\<close> in its \<^verbatim>\<open>bi_session\<close> cookie resolves to a user exactly when a stored session
  has the hash of \<open>t\<close> and an \<^verbatim>\<open>expires_at\<close> later than the clock reading. When it
  resolves, the row returned is that session with its user, \<^verbatim>\<open>last_seen_at\<close> of exactly
  that session becomes the clock reading, and no \<^verbatim>\<open>expires_at\<close> changes. When it does
  not, the store is unchanged.
\<close>

theorem resolve_session:
  assumes ok: "db_ok d" and ck: "parse_cookies (h_cookie hs) ''bi_session'' = Some t"
    and ne: "t \<noteq> []"
  shows "(case get_current_user L hs fr d of
            (None, d') \<Rightarrow>
              d' = d \<and>
              \<not> (\<exists>s \<in> set (sessions d).
                    s_token_hash s = sha256_bytes L t \<and> s_expires_at s > clock_user fr)
          | (Some cu, d') \<Rightarrow>
              (\<exists>s \<in> set (sessions d). \<exists>u \<in> set (users d).
                 s_token_hash s = sha256_bytes L t \<and> s_expires_at s > clock_user fr \<and>
                 u_id u = s_user_id s \<and>
                 cu = \<lparr>cu_session_id = s_id s, cu_user_id = u_id u, cu_email = u_email u,
                       cu_is_admin = u_is_admin u, cu_disabled = u_disabled u\<rparr> \<and>
                 sessions d' =
                   map (\<lambda>x. if x = s then x\<lparr>s_last_seen_at := clock_user fr\<rparr> else x)
                       (sessions d) \<and>
                 map s_expires_at (sessions d') = map s_expires_at (sessions d) \<and>
                 users d' = users d \<and>
                 password_reset_tokens d' = password_reset_tokens d))"
proof (cases "session_join (sha256_bytes L t) (clock_user fr) d")
  case Nil
  have "\<not> (\<exists>s \<in> set (sessions d).
              s_token_hash s = sha256_bytes L t \<and> s_expires_at s > clock_user fr)"
  proof
    assume "\<exists>s \<in> set (sessions d).
              s_token_hash s = sha256_bytes L t \<and> s_expires_at s > clock_user fr"
    then obtain s where s: "s \<in> set (sessions d)" "s_token_hash s = sha256_bytes L t"
      "s_expires_at s > clock_user fr" by blast
    from ok s(1) obtain u where "u \<in> set (users d)" "u_id u = s_user_id s"
      by (auto simp: db_ok_def)
    with s have "(s, u) \<in> set (session_join (sha256_bytes L t) (clock_user fr) d)"
      by (simp add: set_session_join)
    with Nil show False by simp
  qed
  with Nil ck ne show ?thesis
    by (simp add: get_current_user_def Let_def)
next
  case (Cons p ps)
  obtain s u where p: "p = (s, u)" by (cases p)
  from Cons p have "(s, u) \<in> set (session_join (sha256_bytes L t) (clock_user fr) d)"
    by simp
  then have m: "s \<in> set (sessions d)" "u \<in> set (users d)" "u_id u = s_user_id s"
    "s_token_hash s = sha256_bytes L t" "s_expires_at s > clock_user fr"
    by (simp_all add: set_session_join)
  from ok have di: "distinct (map s_id (sessions d))" by (simp add: db_ok_def)
  have g: "get_current_user L hs fr d =
             (Some \<lparr>cu_session_id = s_id s, cu_user_id = s_user_id s, cu_email = u_email u,
                    cu_is_admin = u_is_admin u, cu_disabled = u_disabled u\<rparr>,
              touch_session (s_id s) (clock_user fr) d)"
    using Cons p ck ne by (simp add: get_current_user_def Let_def)
  have e: "map s_expires_at (sessions (touch_session (s_id s) (clock_user fr) d)) =
           map s_expires_at (sessions d)"
    by (simp add: touch_session_def comp_def cong: map_cong)
  show ?thesis
    unfolding g using m e touch_session_distinct [OF di m(1)]
    by (auto simp: touch_session_def intro!: bexI [of _ s] bexI [of _ u])
qed

theorem resolve_session_witness:
  "db_ok ex_db1 \<and>
   parse_cookies (h_cookie (ex_cookie ''tokA'')) ''bi_session'' = Some ''tokA'' \<and>
   (case get_current_user ex_lib (ex_cookie ''tokA'') (ex_fresh 200 ''B'') ex_db1 of
      (None, d') \<Rightarrow>
        d' = ex_db1 \<and>
        \<not> (\<exists>s \<in> set (sessions ex_db1).
              s_token_hash s = sha256_bytes ex_lib ''tokA'' \<and>
              s_expires_at s > clock_user (ex_fresh 200 ''B''))
    | (Some cu, d') \<Rightarrow>
        (\<exists>s \<in> set (sessions ex_db1). \<exists>u \<in> set (users ex_db1).
           s_token_hash s = sha256_bytes ex_lib ''tokA'' \<and>
           s_expires_at s > clock_user (ex_fresh 200 ''B'') \<and>
           u_id u = s_user_id s \<and>
           cu = \<lparr>cu_session_id = s_id s, cu_user_id = u_id u, cu_email = u_email u,
                 cu_is_admin = u_is_admin u, cu_disabled = u_disabled u\<rparr> \<and>
           sessions d' =
             map (\<lambda>x. if x = s then x\<lparr>s_last_seen_at := clock_user (ex_fresh 200 ''B'')\<rparr>
                       else x)
                 (sessions ex_db1) \<and>
           map s_expires_at (sessions d') = map s_expires_at (sessions ex_db1) \<and>
           users d' = users ex_db1 \<and>
           password_reset_tokens d' = password_reset_tokens ex_db1)) \<and>
   fst (get_current_user ex_lib (ex_cookie ''tokA'') (ex_fresh 200 ''B'') ex_db1) \<noteq> None"
proof -
  have h1: "db_ok ex_db1" by code_simp
  have h2: "parse_cookies (h_cookie (ex_cookie ''tokA'')) ''bi_session'' = Some ''tokA''"
    by code_simp
  have h3: "''tokA'' \<noteq> []" by simp
  have h4: "fst (get_current_user ex_lib (ex_cookie ''tokA'') (ex_fresh 200 ''B'') ex_db1)
              \<noteq> None"
    by code_simp
  from resolve_session [OF h1 h2 h3, of ex_lib "ex_fresh 200 ''B''"] h1 h2 h4
  show ?thesis by blast
qed

section \<open>Registration\<close>

text \<open>
  Claim C8. When a POST to \<^verbatim>\<open>/app/register\<close> succeeds, that is, answers with the
  redirect that sets the session cookie, exactly one user has been added, and its
  \<^verbatim>\<open>is_admin\<close> flag is set if and only if the \<^verbatim>\<open>users\<close> table was empty before the call.
\<close>

theorem register_admin_iff_first:
  assumes "handle_app_post L hs ''/app/register'' f fr d =
             (SessionCookieRedirect loc tok age, d')"
  shows "\<exists>u. users d' = users d @ [u] \<and> (u_is_admin u \<longleftrightarrow> users d = []) \<and>
             u_email_norm u = normalize_email (form_get f ''email'') \<and> \<not> u_disabled u"
proof -
  from assms obtain user d1 where g: "get_current_user L hs fr d = (user, d1)"
    and r: "with_conn d (post_routes L ''/app/register'' f fr user d1) =
              (SessionCookieRedirect loc tok age, d')"
    by (cases "get_current_user L hs fr d")
      (auto simp: handle_app_post_def page_origin_failed_def split: if_splits)
  from r have p: "post_register L f fr user d1 = Some (SessionCookieRedirect loc tok age, d')"
    by (auto simp: with_conn_def post_routes_def split: option.splits)
  from p have un: "user = None"
    by (auto simp: post_register_def split: option.splits)
  with g have d1: "d1 = d" by (simp add: get_current_user_None)
  from p un d1 show ?thesis
    by (auto simp: post_register_def Let_def insert_user_def page_register_invalid_def
          page_register_duplicate_def
          split: option.splits if_splits dest!: create_session_users)
qed

theorem register_admin_iff_first_witness:
  "handle_app_post ex_lib ex_hs ''/app/register'' (ex_credentials ''a@x.com'')
     (ex_fresh 100 ''A'') empty_db =
     (SessionCookieRedirect ''/app/account'' ''tokA'' 1209600, ex_db1) \<and>
   (\<exists>u. users ex_db1 = users empty_db @ [u] \<and> (u_is_admin u \<longleftrightarrow> users empty_db = []) \<and>
        u_email_norm u = normalize_email (form_get (ex_credentials ''a@x.com'') ''email'') \<and>
        \<not> u_disabled u) \<and>
   users empty_db = []"
proof -
  have "fst (handle_app_post ex_lib ex_hs ''/app/register'' (ex_credentials ''a@x.com'')
               (ex_fresh 100 ''A'') empty_db) =
        SessionCookieRedirect ''/app/account'' ''tokA'' 1209600"
    by code_simp
  then have h: "handle_app_post ex_lib ex_hs ''/app/register'' (ex_credentials ''a@x.com'')
                  (ex_fresh 100 ''A'') empty_db =
                (SessionCookieRedirect ''/app/account'' ''tokA'' 1209600, ex_db1)"
    by (simp add: ex_db1_def prod_eq_iff)
  have e: "users empty_db = []" by (simp add: empty_db_def)
  from register_admin_iff_first [OF h] h e show ?thesis by blast
qed

section \<open>The same-origin check\<close>

text \<open>
  Claim C10, as stated, fails: a \<^verbatim>\<open>Host\<close> header that is not empty but consists of
  white space (here one vertical tab) is empty after \<^verbatim>\<open>strip()\<close>, and the check rejects the
  request although it carries neither \<^verbatim>\<open>Origin\<close> nor \<^verbatim>\<open>Referer\<close>.
\<close>

theorem same_origin_blank_host_counterexample:
  "h_host ex_hs_blank_host = Some [CHR 0x0B] \<and> [CHR 0x0B] \<noteq> ([] :: string) \<and>
   h_origin ex_hs_blank_host = None \<and> h_referer ex_hs_blank_host = None \<and>
   \<not> same_origin_post ex_lib ex_hs_blank_host \<and>
   handle_app_post ex_lib ex_hs_blank_host ''/app/login'' (ex_credentials ''a@x.com'')
     (ex_fresh 200 ''B'') ex_db1 = (page_origin_failed, ex_db1)"
proof -
  have "\<not> same_origin_post ex_lib ex_hs_blank_host" by code_simp
  then show ?thesis
    by (simp add: handle_app_post_def ex_hs_blank_host_def ex_hs_def)
qed

text \<open>
  Claim C10, amended. For every POST to an \<^verbatim>\<open>/app\<close> path whose \<^verbatim>\<open>Host\<close> header is not empty
  after white space is stripped and which carries neither an \<^verbatim>\<open>Origin\<close> nor a \<^verbatim>\<open>Referer\<close>
  header, the same-origin check passes and the handler goes on to resolve the current
  user and run the route of the path.
\<close>

theorem same_origin_without_origin_evidence:
  assumes "strip (header_or_empty (h_host hs)) \<noteq> []" and "h_origin hs = None"
    and "h_referer hs = None"
  shows "same_origin_post L hs \<and>
         handle_app_post L hs path f fr d0 =
           (case get_current_user L hs fr d0 of
              (user, d) \<Rightarrow> with_conn d0 (post_routes L path f fr user d))"
  using assms
  by (simp add: same_origin_post_def handle_app_post_def header_or_empty_def strip_def Let_def)

theorem same_origin_without_origin_evidence_witness:
  "strip (header_or_empty (h_host ex_hs)) \<noteq> [] \<and> h_origin ex_hs = None \<and>
   h_referer ex_hs = None \<and> same_origin_post ex_lib ex_hs \<and>
   handle_app_post ex_lib ex_hs ''/app/register'' (ex_credentials ''a@x.com'')
     (ex_fresh 100 ''A'') empty_db =
     (case get_current_user ex_lib ex_hs (ex_fresh 100 ''A'') empty_db of
        (user, d) \<Rightarrow>
          with_conn empty_db
            (post_routes ex_lib ''/app/register'' (ex_credentials ''a@x.com'')
               (ex_fresh 100 ''A'') user d))"
proof -
  have h1: "strip (header_or_empty (h_host ex_hs)) \<noteq> []" by code_simp
  have h2: "h_origin ex_hs = None" by (simp add: ex_hs_def)
  have h3: "h_referer ex_hs = None" by (simp add: ex_hs_def)
  from same_origin_without_origin_evidence [OF h1 h2 h3] h1 h2 h3 show ?thesis by blast
qed

section \<open>The admin gate\<close>

text \<open>
  Claim C9. When the request passes the same-origin check and its session resolves to a
  user with \<^verbatim>\<open>is_admin\<close> set and \<^verbatim>\<open>disabled\<close> set, each of the five admin routes
  (create-user, toggle-disabled, toggle-admin, create-reset, delete-user) gets past the
  two checks at the head of the \<^verbatim>\<open>/app/admin/\<close> block and the handler answers with what
  the block of the route computes: the gate reads \<^verbatim>\<open>is_admin\<close> only.
\<close>

theorem disabled_admin_passes_gate:
  assumes so: "same_origin_post L hs" and cu: "get_current_user L hs fr d0 = (Some cu, d)"
    and adm: "cu_is_admin cu" and dis: "cu_disabled cu"
  shows "handle_app_post L hs ''/app/admin/create-user'' f fr d0 =
           with_conn d0 (admin_create_user L f fr d) \<and>
         handle_app_post L hs ''/app/admin/toggle-disabled'' f fr d0 =
           with_conn d0 (admin_toggle_disabled L f fr d) \<and>
         handle_app_post L hs ''/app/admin/toggle-admin'' f fr d0 =
           with_conn d0 (admin_toggle_admin L f fr d) \<and>
         handle_app_post L hs ''/app/admin/create-reset'' f fr d0 =
           with_conn d0 (admin_create_reset L f fr d) \<and>
         handle_app_post L hs ''/app/admin/delete-user'' f fr d0 =
           with_conn d0 (admin_delete_user L f fr d)"
  using so cu adm
  by (simp add: handle_app_post_def post_routes_def post_admin_def startswith_def)

theorem disabled_admin_passes_gate_witness:
  "same_origin_post ex_lib (ex_cookie ''tokA'') \<and>
   get_current_user ex_lib (ex_cookie ''tokA'') (ex_fresh 300 ''C'') ex_db4 =
     (Some ex_cu4, touch_session 1 300 ex_db4) \<and>
   cu_is_admin ex_cu4 \<and> cu_disabled ex_cu4 \<and>
   handle_app_post ex_lib (ex_cookie ''tokA'') ''/app/admin/create-user''
       ((ex_credentials ''b@x.com'')(''is_admin'' \<mapsto> ''1'')) (ex_fresh 300 ''C'') ex_db4 =
     with_conn ex_db4
       (admin_create_user ex_lib ((ex_credentials ''b@x.com'')(''is_admin'' \<mapsto> ''1''))
          (ex_fresh 300 ''C'') (touch_session 1 300 ex_db4)) \<and>
   fst (handle_app_post ex_lib (ex_cookie ''tokA'') ''/app/admin/create-user''
       ((ex_credentials ''b@x.com'')(''is_admin'' \<mapsto> ''1'')) (ex_fresh 300 ''C'') ex_db4) =
     RedirectAdminMsg ''User created''"
proof -
  have h1: "same_origin_post ex_lib (ex_cookie ''tokA'')" by code_simp
  have h2: "get_current_user ex_lib (ex_cookie ''tokA'') (ex_fresh 300 ''C'') ex_db4 =
              (Some ex_cu4, touch_session 1 300 ex_db4)" by code_simp
  have h3: "cu_is_admin ex_cu4" by (simp add: ex_cu4_def)
  have h4: "cu_disabled ex_cu4" by (simp add: ex_cu4_def)
  have h5: "fst (handle_app_post ex_lib (ex_cookie ''tokA'') ''/app/admin/create-user''
       ((ex_credentials ''b@x.com'')(''is_admin'' \<mapsto> ''1'')) (ex_fresh 300 ''C'') ex_db4) =
     RedirectAdminMsg ''User created''" by code_simp
  from disabled_admin_passes_gate [OF h1 h2 h3 h4] h1 h2 h3 h4 h5 show ?thesis by blast
qed

section \<open>Confirming a password reset\<close>

lemma page_confirm_distinct: "page_confirm_invalid \<noteq> page_confirm_expired"
  by (simp add: page_confirm_invalid_def page_confirm_expired_def)

text \<open>
  Claim C4, as stated, fails: with an acceptable new password, a token without a
  separator is answered with the page "Invalid token." and a token whose selector has no
  record with the page "Token expired or already used."; the two responses differ.
\<close>

theorem confirm_failures_counterexample:
  "8 \<le> length (form_get (ex_confirm ''selRverR'') ''new_password'') \<and>
   CHR ''.'' \<notin> set ''selRverR'' \<and>
   reset_by_selector ''selR'' ex_db1 = None \<and>
   handle_app_post ex_lib ex_hs ''/app/reset/confirm'' (ex_confirm ''selRverR'')
     (ex_fresh 200 ''B'') ex_db1 =
     (Html 400 ''Confirm reset''
        ''<h1>Set new password</h1><p class='error'>Invalid token.</p>'', ex_db1) \<and>
   handle_app_post ex_lib ex_hs ''/app/reset/confirm'' (ex_confirm ''selR.verR'')
     (ex_fresh 200 ''B'') ex_db1 =
     (Html 400 ''Confirm reset''
        ''<h1>Set new password</h1><p class='error'>Token expired or already used.</p>'',
      ex_db1) \<and>
   fst (handle_app_post ex_lib ex_hs ''/app/reset/confirm'' (ex_confirm ''selRverR'')
          (ex_fresh 200 ''B'') ex_db1) \<noteq>
   fst (handle_app_post ex_lib ex_hs ''/app/reset/confirm'' (ex_confirm ''selR.verR'')
          (ex_fresh 200 ''B'') ex_db1)"
  by code_simp

text \<open>
  Claim C4, amended. For a POST to \<^verbatim>\<open>/app/reset/confirm\<close> that passes the same-origin
  check, carries no valid session and has a new password of at least 8 characters, each
  of the five failure causes is answered with status 400 on the page "Confirm reset" and
  leaves the store unchanged. A token without separator and a verifier whose hash does
  not match get the same body "Invalid token."; an absent, a used and an expired record
  get the same body "Token expired or already used.", which differs from the former.
\<close>

theorem confirm_failures:
  assumes so: "same_origin_post L hs" and an: "fst (get_current_user L hs fr d) = None"
    and pw: "8 \<le> length (form_get f ''new_password'')"
    and tk: "token = strip (form_get f ''token'')"
  shows "(CHR ''.'' \<notin> set token \<longrightarrow>
            handle_app_post L hs ''/app/reset/confirm'' f fr d = (page_confirm_invalid, d)) \<and>
         (CHR ''.'' \<in> set token \<longrightarrow>
            (case reset_by_selector (before_first (CHR ''.'') token) d of
               None \<Rightarrow>
                 handle_app_post L hs ''/app/reset/confirm'' f fr d = (page_confirm_expired, d)
             | Some row \<Rightarrow>
                 (r_used_at row \<noteq> None \<longrightarrow>
                    handle_app_post L hs ''/app/reset/confirm'' f fr d =
                      (page_confirm_expired, d)) \<and>
                 (r_expires_at row \<le> clock_now fr \<longrightarrow>
                    handle_app_post L hs ''/app/reset/confirm'' f fr d =
                      (page_confirm_expired, d)) \<and>
                 (r_used_at row = None \<and> clock_now fr < r_expires_at row \<and>
                  sha256_bytes L (after_first (CHR ''.'') token) \<noteq> r_verifier_hash row \<longrightarrow>
                    handle_app_post L hs ''/app/reset/confirm'' f fr d =
                      (page_confirm_invalid, d)))) \<and>
         page_confirm_invalid \<noteq> page_confirm_expired \<and>
         page_confirm_invalid = Html 400 ''Confirm reset''
           ''<h1>Set new password</h1><p class='error'>Invalid token.</p>'' \<and>
         page_confirm_expired = Html 400 ''Confirm reset''
           ''<h1>Set new password</h1><p class='error'>Token expired or already used.</p>''"
proof -
  from an obtain d1 where g: "get_current_user L hs fr d = (None, d1)"
    by (cases "get_current_user L hs fr d") auto
  then have d1: "d1 = d" by (rule get_current_user_None)
  have h: "handle_app_post L hs ''/app/reset/confirm'' f fr d =
           with_conn d (post_reset_confirm L f fr None d)"
    using so g d1 by (simp add: handle_app_post_def post_routes_def)
  show ?thesis
    unfolding h using pw tk page_confirm_distinct
    by (auto simp: post_reset_confirm_def with_conn_def Let_def page_confirm_invalid_def
        page_confirm_expired_def split: option.splits)
qed

theorem confirm_failures_witness:
  "same_origin_post ex_lib ex_hs \<and>
   fst (get_current_user ex_lib ex_hs (ex_fresh 200 ''B'') ex_db1) = None \<and>
   8 \<le> length (form_get (ex_confirm ''selR.verR'') ''new_password'') \<and>
   ''selR.verR'' = strip (form_get (ex_confirm ''selR.verR'') ''token'') \<and>
   CHR ''.'' \<in> set ''selR.verR'' \<and>
   reset_by_selector (before_first (CHR ''.'') ''selR.verR'') ex_db1 = None \<and>
   handle_app_post ex_lib ex_hs ''/app/reset/confirm'' (ex_confirm ''selR.verR'')
     (ex_fresh 200 ''B'') ex_db1 = (page_confirm_expired, ex_db1)"
proof -
  have h1: "same_origin_post ex_lib ex_hs" by code_simp
  have h2: "fst (get_current_user ex_lib ex_hs (ex_fresh 200 ''B'') ex_db1) = None"
    by code_simp
  have h3: "8 \<le> length (form_get (ex_confirm ''selR.verR'') ''new_password'')"
    by code_simp
  have h4: "''selR.verR'' = strip (form_get (ex_confirm ''selR.verR'') ''token'')"
    by code_simp
  have h5: "CHR ''.'' \<in> set ''selR.verR''" by simp
  have h6: "reset_by_selector (before_first (CHR ''.'') ''selR.verR'') ex_db1 = None"
    by code_simp
  from confirm_failures [OF h1 h2 h3 h4] h5 h6
  have "handle_app_post ex_lib ex_hs ''/app/reset/confirm'' (ex_confirm ''selR.verR'')
          (ex_fresh 200 ''B'') ex_db1 = (page_confirm_expired, ex_db1)"
    by simp
  with h1 h2 h3 h4 h5 h6 show ?thesis by blast
qed

section \<open>What a request may change\<close>

text \<open>
  Every route adds at most one session, whose hash is that of the token drawn for the
  request, and at most one reset record, whose selector is the one drawn for the request;
  records that exist only ever get \<^verbatim>\<open>used_at\<close> set or are deleted.
\<close>

named_theorems prim_defs

lemmas [prim_defs] = touch_session_def insert_user_def insert_session_def insert_reset_def
  delete_user_def update_password_def set_disabled_def set_admin_def mark_used_def
  delete_sessions_of_def delete_session_by_hash_def create_session_def

lemma get_current_user_cases:
  "get_current_user L hs fr d = (u, d') \<Longrightarrow>
     d' = d \<or> (\<exists>sid. d' = touch_session sid (clock_user fr) d)"
  by (auto simp: get_current_user_def Let_def
      split: option.splits list.splits if_splits prod.splits)

lemma token_hashes_touch [simp]: "token_hashes (touch_session sid now d) = token_hashes d"
proof -
  have "map s_token_hash (sessions (touch_session sid now d)) = map s_token_hash (sessions d)"
    by (simp add: touch_session_def comp_def cong: map_cong)
  then have "set (map s_token_hash (sessions (touch_session sid now d))) =
             set (map s_token_hash (sessions d))" by simp
  then show ?thesis by (simp add: token_hashes_def)
qed

lemma spent_touch [simp]: "spent sel (touch_session sid now d) = spent sel d"
  by (simp add: spent_def)

lemma post_login_frame:
  assumes "post_login L f fr user d = Some (r, d')"
  shows "token_hashes d' \<subseteq> insert (sha256_bytes L (new_token fr)) (token_hashes d)"
    and "password_reset_tokens d' = password_reset_tokens d"
  using assms
  by (auto simp: post_login_def Let_def token_hashes_def prim_defs
      split: option.splits if_splits)

lemma post_register_frame:
  assumes "post_register L f fr user d = Some (r, d')"
  shows "token_hashes d' \<subseteq> insert (sha256_bytes L (new_token fr)) (token_hashes d)"
    and "password_reset_tokens d' = password_reset_tokens d"
  using assms
  by (auto simp: post_register_def Let_def token_hashes_def prim_defs
      split: option.splits if_splits)

lemma post_change_password_frame:
  assumes "post_change_password L f fr user d = Some (r, d')"
  shows "token_hashes d' \<subseteq> insert (sha256_bytes L (new_token fr)) (token_hashes d)"
    and "password_reset_tokens d' = password_reset_tokens d"
  using assms
  by (auto simp: post_change_password_def Let_def token_hashes_def prim_defs
      split: option.splits if_splits)

lemma post_account_delete_frame:
  assumes "post_account_delete L f fr user d = Some (r, d')"
  shows "token_hashes d' \<subseteq> insert (sha256_bytes L (new_token fr)) (token_hashes d)"
    and "spent sel d \<Longrightarrow> spent sel d'"
  using assms
  by (auto simp: post_account_delete_def Let_def token_hashes_def spent_def prim_defs
      split: option.splits if_splits)

lemma post_reset_frame:
  assumes "post_reset L f fr user d = Some (r, d')"
  shows "token_hashes d' \<subseteq> insert (sha256_bytes L (new_token fr)) (token_hashes d)"
    and "spent sel d \<Longrightarrow> new_selector fr \<noteq> sel \<Longrightarrow> spent sel d'"
  using assms
  by (auto simp: post_reset_def Let_def token_hashes_def spent_def prim_defs
      split: option.splits if_splits)

lemma post_reset_confirm_frame:
  assumes "post_reset_confirm L f fr user d = Some (r, d')"
  shows "token_hashes d' \<subseteq> insert (sha256_bytes L (new_token fr)) (token_hashes d)"
    and "spent sel d \<Longrightarrow> spent sel d'"
  using assms
  by (auto simp: post_reset_confirm_def Let_def token_hashes_def spent_def prim_defs
      split: option.splits if_splits)

lemma post_admin_frame:
  assumes "post_admin L path f fr user d = Some (r, d')"
  shows "token_hashes d' \<subseteq> insert (sha256_bytes L (new_token fr)) (token_hashes d)"
    and "spent sel d \<Longrightarrow> new_selector fr \<noteq> sel \<Longrightarrow> spent sel d'"
  using assms
  by (auto simp: post_admin_def admin_create_user_def admin_toggle_disabled_def
      admin_toggle_admin_def admin_create_reset_def admin_delete_user_def
      Let_def token_hashes_def spent_def prim_defs
      split: option.splits if_splits)

lemma spent_same_tokens:
  "password_reset_tokens d' = password_reset_tokens d \<Longrightarrow> spent sel d' = spent sel d"
  by (simp add: spent_def)

lemma post_routes_cases:
  assumes "post_routes L path f fr user d = Some (r, d')"
  shows "post_login L f fr user d = Some (r, d') \<or>
         post_register L f fr user d = Some (r, d') \<or>
         post_change_password L f fr user d = Some (r, d') \<or>
         post_account_delete L f fr user d = Some (r, d') \<or>
         post_reset L f fr user d = Some (r, d') \<or>
         post_reset_confirm L f fr user d = Some (r, d') \<or>
         post_admin L path f fr user d = Some (r, d') \<or> d' = d"
  using assms by (simp add: post_routes_def split: if_splits)

lemma post_routes_frame:
  assumes "post_routes L path f fr user d = Some (r, d')"
  shows "token_hashes d' \<subseteq> insert (sha256_bytes L (new_token fr)) (token_hashes d)"
    and "spent sel d \<Longrightarrow> new_selector fr \<noteq> sel \<Longrightarrow> spent sel d'"
proof -
  from post_routes_cases [OF assms]
  show "token_hashes d' \<subseteq> insert (sha256_bytes L (new_token fr)) (token_hashes d)"
  proof (elim disjE)
    assume "post_login L f fr user d = Some (r, d')"
    then show ?thesis by (rule post_login_frame(1))
  next
    assume "post_register L f fr user d = Some (r, d')"
    then show ?thesis by (rule post_register_frame(1))
  next
    assume "post_change_password L f fr user d = Some (r, d')"
    then show ?thesis by (rule post_change_password_frame(1))
  next
    assume "post_account_delete L f fr user d = Some (r, d')"
    then show ?thesis by (rule post_account_delete_frame(1))
  next
    assume "post_reset L f fr user d = Some (r, d')"
    then show ?thesis by (rule post_reset_frame(1))
  next
    assume "post_reset_confirm L f fr user d = Some (r, d')"
    then show ?thesis by (rule post_reset_confirm_frame(1))
  next
    assume "post_admin L path f fr user d = Some (r, d')"
    then show ?thesis by (rule post_admin_frame(1))
  next
    assume "d' = d"
    then show ?thesis by blast
  qed
  assume a: "spent sel d" "new_selector fr \<noteq> sel"
  from post_routes_cases [OF assms]
  show "spent sel d'"
  proof (elim disjE)
    assume "post_login L f fr user d = Some (r, d')"
    then show ?thesis using a(1) by (simp add: post_login_frame(2) spent_def)
  next
    assume "post_register L f fr user d = Some (r, d')"
    then show ?thesis using a(1) by (simp add: post_register_frame(2) spent_def)
  next
    assume "post_change_password L f fr user d = Some (r, d')"
    then show ?thesis using a(1) by (simp add: post_change_password_frame(2) spent_def)
  next
    assume "post_account_delete L f fr user d = Some (r, d')"
    then show ?thesis using a(1) by (rule post_account_delete_frame(2))
  next
    assume "post_reset L f fr user d = Some (r, d')"
    then show ?thesis using a by (rule post_reset_frame(2))
  next
    assume "post_reset_confirm L f fr user d = Some (r, d')"
    then show ?thesis using a(1) by (rule post_reset_confirm_frame(2))
  next
    assume "post_admin L path f fr user d = Some (r, d')"
    then show ?thesis using a by (rule post_admin_frame(2))
  next
    assume "d' = d"
    then show ?thesis using a(1) by simp
  qed
qed

lemma handle_app_post_frame:
  assumes "handle_app_post L hs path f fr d0 = (r, d')"
  shows "token_hashes d' \<subseteq> insert (sha256_bytes L (new_token fr)) (token_hashes d0)"
    and "spent sel d0 \<Longrightarrow> new_selector fr \<noteq> sel \<Longrightarrow> spent sel d'"
proof -
  obtain user d where g: "get_current_user L hs fr d0 = (user, d)"
    by (cases "get_current_user L hs fr d0")
  from get_current_user_cases [OF g]
  have t: "token_hashes d = token_hashes d0" and s: "spent sel d = spent sel d0"
    by auto
  show "token_hashes d' \<subseteq> insert (sha256_bytes L (new_token fr)) (token_hashes d0)"
    using assms g t post_routes_frame(1) [of L path f fr user d]
    by (auto simp: handle_app_post_def with_conn_def split: if_splits option.splits)
  show "spent sel d0 \<Longrightarrow> new_selector fr \<noteq> sel \<Longrightarrow> spent sel d'"
    using assms g s post_routes_frame(2) [of L path f fr user d]
    by (auto simp: handle_app_post_def with_conn_def split: if_splits option.splits)
qed

lemma token_hashes_delete_by_hash:
  "token_hashes (delete_session_by_hash h d) = token_hashes d - {h}"
  by (auto simp: token_hashes_def delete_session_by_hash_def)

lemma spent_delete_by_hash [simp]: "spent sel (delete_session_by_hash h d) = spent sel d"
  by (simp add: spent_def delete_session_by_hash_def)

lemma handle_app_get_snd:
  assumes "get_current_user L hs fr d0 = (user, d)"
  shows "snd (handle_app_get L hs path fr d0) =
           (if path = ''/app/logout'' \<and> user \<noteq> None
            then (case parse_cookies (h_cookie hs) ''bi_session'' of
                    None \<Rightarrow> d
                  | Some token \<Rightarrow>
                      if token = [] then d
                      else delete_session_by_hash (sha256_bytes L token) d)
            else d)"
proof (cases "path = ''/app/logout''")
  case True
  with assms show ?thesis
    by (simp add: handle_app_get_def if_distrib [of snd] option.case_distrib [of snd]
        split del: if_split cong: if_cong option.case_cong)
next
  case False
  with assms show ?thesis
    by (simp add: handle_app_get_def if_distrib [of snd] option.case_distrib [of snd]
        option.case_eq_if split del: if_split cong: if_cong)
qed

lemma handle_app_get_store:
  assumes g: "get_current_user L hs fr d0 = (user, d)"
  shows "snd (handle_app_get L hs path fr d0) = d \<or>
         (\<exists>h. snd (handle_app_get L hs path fr d0) = delete_session_by_hash h d)"
  unfolding handle_app_get_snd [OF g, of path]
  by (auto split: option.splits)

lemma handle_app_get_frame:
  "token_hashes (snd (handle_app_get L hs path fr d0)) \<subseteq> token_hashes d0"
  "spent sel (snd (handle_app_get L hs path fr d0)) = spent sel d0"
proof -
  obtain user d where g: "get_current_user L hs fr d0 = (user, d)"
    by (cases "get_current_user L hs fr d0")
  from get_current_user_cases [OF g]
  have t: "token_hashes d = token_hashes d0" and s: "spent sel d = spent sel d0"
    by auto
  from handle_app_get_store [OF g, of path]
  show "token_hashes (snd (handle_app_get L hs path fr d0)) \<subseteq> token_hashes d0"
  proof (elim disjE exE)
    assume e: "snd (handle_app_get L hs path fr d0) = d"
    show ?thesis unfolding e t by (rule subset_refl)
  next
    fix h
    assume e: "snd (handle_app_get L hs path fr d0) = delete_session_by_hash h d"
    show ?thesis unfolding e token_hashes_delete_by_hash t by (rule Diff_subset)
  qed
  from handle_app_get_store [OF g, of path]
  show "spent sel (snd (handle_app_get L hs path fr d0)) = spent sel d0"
  proof (elim disjE exE)
    assume e: "snd (handle_app_get L hs path fr d0) = d"
    show ?thesis unfolding e by (rule s)
  next
    fix h
    assume e: "snd (handle_app_get L hs path fr d0) = delete_session_by_hash h d"
    show ?thesis unfolding e spent_delete_by_hash by (rule s)
  qed
qed

lemma step_token_hashes:
  "token_hashes (step L d rq) \<subseteq>
     insert (sha256_bytes L (new_token (fresh_of rq))) (token_hashes d)"
proof (cases rq)
  case (GET hs path fr)
  have "token_hashes (snd (handle_app_get L hs path fr d)) \<subseteq> token_hashes d"
    by (rule handle_app_get_frame(1))
  with GET show ?thesis by (simp add: subset_insertI2)
next
  case (POST hs path f fr)
  have "handle_app_post L hs path f fr d =
          (fst (handle_app_post L hs path f fr d), snd (handle_app_post L hs path f fr d))"
    by simp
  then have "token_hashes (snd (handle_app_post L hs path f fr d)) \<subseteq>
               insert (sha256_bytes L (new_token fr)) (token_hashes d)"
    by (rule handle_app_post_frame(1))
  with POST show ?thesis by simp
qed

lemma step_spent:
  assumes "spent sel d" and "new_selector (fresh_of rq) \<noteq> sel"
  shows "spent sel (step L d rq)"
proof (cases rq)
  case (GET hs path fr)
  with assms(1) show ?thesis by (simp add: handle_app_get_frame(2))
next
  case (POST hs path f fr)
  have e: "handle_app_post L hs path f fr d =
          (fst (handle_app_post L hs path f fr d), snd (handle_app_post L hs path f fr d))"
    by simp
  from assms POST have n: "new_selector fr \<noteq> sel" by simp
  from handle_app_post_frame(2) [OF e assms(1) n] POST show ?thesis by simp
qed

lemma run_token_hashes:
  assumes "h \<notin> token_hashes d"
    and "\<forall>rq \<in> set rqs. sha256_bytes L (new_token (fresh_of rq)) \<noteq> h"
  shows "h \<notin> token_hashes (run L rqs d)"
  using assms unfolding run_def
proof (induction rqs arbitrary: d)
  case Nil
  then show ?case by simp
next
  case (Cons rq rqs)
  from Cons.prems step_token_hashes [of L d rq] have "h \<notin> token_hashes (step L d rq)"
    by auto
  with Cons show ?case by simp
qed

lemma run_spent:
  assumes "spent sel d" and "\<forall>rq \<in> set rqs. new_selector (fresh_of rq) \<noteq> sel"
  shows "spent sel (run L rqs d)"
  using assms unfolding run_def
proof (induction rqs arbitrary: d)
  case Nil
  then show ?case by simp
next
  case (Cons rq rqs)
  from Cons.prems have "spent sel (step L d rq)" by (simp add: step_spent)
  with Cons show ?case by simp
qed

lemma unknown_hash_anonymous:
  assumes "parse_cookies (h_cookie hs) ''bi_session'' = Some t"
    and "sha256_bytes L t \<notin> token_hashes d"
  shows "get_current_user L hs fr d = (None, d)"
proof -
  have "session_join (sha256_bytes L t) (clock_user fr) d = []"
  proof (rule ccontr)
    assume "session_join (sha256_bytes L t) (clock_user fr) d \<noteq> []"
    then obtain p where "p \<in> set (session_join (sha256_bytes L t) (clock_user fr) d)"
      by (cases "session_join (sha256_bytes L t) (clock_user fr) d") auto
    with assms(2) show False
      by (force simp: set_session_join token_hashes_def)
  qed
  with assms(1) show ?thesis
    by (simp add: get_current_user_def Let_def)
qed

section \<open>Facts about the reset confirmation\<close>

lemma handle_post_unauthenticated:
  assumes "same_origin_post L hs" and "fst (get_current_user L hs fr d) = None"
  shows "handle_app_post L hs path f fr d = with_conn d (post_routes L path f fr None d)"
proof -
  from assms(2) obtain d1 where g: "get_current_user L hs fr d = (None, d1)"
    by (cases "get_current_user L hs fr d") auto
  then have "d1 = d" by (rule get_current_user_None)
  with assms(1) g show ?thesis by (simp add: handle_app_post_def)
qed

lemma reset_confirm_ok:
  assumes c: "handle_app_post L hs ''/app/reset/confirm'' f fr d0 = (page_confirm_ok, d1)"
    and tk: "token = strip (form_get f ''token'')"
  shows "\<exists>row. reset_by_selector (before_first (CHR ''.'') token) d0 = Some row \<and>
           r_used_at row = None \<and> clock_now fr < r_expires_at row \<and>
           sha256_bytes L (after_first (CHR ''.'') token) = r_verifier_hash row \<and>
           d1 = delete_sessions_of (r_user_id row)
                  (mark_used (r_id row) (clock_now fr)
                     (update_password (r_user_id row) (new_salt fr)
                        (password_hash L (form_get f ''new_password'') (new_salt fr)) d0))"
proof -
  from c obtain user d where g: "get_current_user L hs fr d0 = (user, d)"
    and r: "with_conn d0 (post_routes L ''/app/reset/confirm'' f fr user d) =
              (page_confirm_ok, d1)"
    by (cases "get_current_user L hs fr d0")
      (auto simp: handle_app_post_def page_origin_failed_def page_confirm_ok_def
        split: if_splits)
  from r have p: "post_reset_confirm L f fr user d = Some (page_confirm_ok, d1)"
    by (auto simp: with_conn_def post_routes_def page_confirm_ok_def split: option.splits)
  from p have un: "user = None"
    by (auto simp: post_reset_confirm_def page_confirm_ok_def split: option.splits)
  with g have d: "d = d0" by (simp add: get_current_user_None)
  from p un d tk show ?thesis
    by (auto simp: post_reset_confirm_def Let_def page_confirm_ok_def page_confirm_short_def
        page_confirm_invalid_def page_confirm_expired_def
        split: option.splits if_splits)
qed

lemma spent_no_confirm:
  assumes sp: "spent (before_first (CHR ''.'') (strip (form_get f ''token''))) d"
  shows "fst (handle_app_post L hs ''/app/reset/confirm'' f fr d) \<noteq> page_confirm_ok"
proof
  assume "fst (handle_app_post L hs ''/app/reset/confirm'' f fr d) = page_confirm_ok"
  then have "handle_app_post L hs ''/app/reset/confirm'' f fr d =
               (page_confirm_ok, snd (handle_app_post L hs ''/app/reset/confirm'' f fr d))"
    by (simp add: prod_eq_iff)
  from reset_confirm_ok [OF this refl]
  obtain row where
    f: "reset_by_selector (before_first (CHR ''.'') (strip (form_get f ''token''))) d = Some row"
    and u: "r_used_at row = None"
    by blast
  from f have "row \<in> set (password_reset_tokens d)"
    and "r_selector row = before_first (CHR ''.'') (strip (form_get f ''token''))"
    by (auto simp: reset_by_selector_def find_Some_iff in_set_conv_nth)
  with sp u show False by (auto simp: spent_def)
qed

lemma spent_confirm_expired:
  assumes sp: "spent (before_first (CHR ''.'') (strip (form_get f ''token''))) d"
    and dot: "CHR ''.'' \<in> set (strip (form_get f ''token''))"
    and so: "same_origin_post L hs" and an: "fst (get_current_user L hs fr d) = None"
    and pw: "8 \<le> length (form_get f ''new_password'')"
  shows "handle_app_post L hs ''/app/reset/confirm'' f fr d = (page_confirm_expired, d)"
proof -
  have h: "handle_app_post L hs ''/app/reset/confirm'' f fr d =
           with_conn d (post_reset_confirm L f fr None d)"
    using handle_post_unauthenticated [OF so an] by (simp add: post_routes_def)
  show ?thesis
  proof (cases "reset_by_selector (before_first (CHR ''.'') (strip (form_get f ''token''))) d")
    case None
    with dot pw show ?thesis
      unfolding h by (simp add: post_reset_confirm_def with_conn_def Let_def)
  next
    case (Some row)
    then have "row \<in> set (password_reset_tokens d)"
      and "r_selector row = before_first (CHR ''.'') (strip (form_get f ''token''))"
      by (auto simp: reset_by_selector_def find_Some_iff in_set_conv_nth)
    with sp have "r_used_at row \<noteq> None" by (auto simp: spent_def)
    with Some dot pw show ?thesis
      unfolding h by (simp add: post_reset_confirm_def with_conn_def Let_def)
  qed
qed

lemma find_map_same:
  assumes "\<And>x. P (g x) = P x"
  shows "find P (map g xs) = map_option g (find P xs)"
  using assms by (induction xs) auto

lemma mark_used_spent:
  assumes di: "distinct (map r_selector (password_reset_tokens d))"
    and f: "reset_by_selector sel d = Some row"
  shows "spent sel (mark_used (r_id row) now d)"
    and "reset_by_selector sel (mark_used (r_id row) now d) =
           Some (row\<lparr>r_used_at := Some now\<rparr>)"
proof -
  from f have m: "row \<in> set (password_reset_tokens d)" and s: "r_selector row = sel"
    by (auto simp: reset_by_selector_def find_Some_iff in_set_conv_nth)
  have "\<And>r. r \<in> set (password_reset_tokens d) \<Longrightarrow> r_selector r = sel \<Longrightarrow> r = row"
    using di m s by (auto simp: distinct_map inj_on_def)
  then show "spent sel (mark_used (r_id row) now d)"
    by (auto simp: spent_def mark_used_def)
  have "find (\<lambda>r. r_selector r = sel)
          (map (\<lambda>r. if r_id r = r_id row then r\<lparr>r_used_at := Some now\<rparr> else r)
             (password_reset_tokens d)) =
        map_option (\<lambda>r. if r_id r = r_id row then r\<lparr>r_used_at := Some now\<rparr> else r)
          (find (\<lambda>r. r_selector r = sel) (password_reset_tokens d))"
    by (rule find_map_same) simp
  with f show "reset_by_selector sel (mark_used (r_id row) now d) =
                 Some (row\<lparr>r_used_at := Some now\<rparr>)"
    by (simp add: reset_by_selector_def mark_used_def)
qed

section \<open>Revoked sessions\<close>

lemma logout_removes_hash:
  assumes ck: "parse_cookies (h_cookie hl) ''bi_session'' = Some t"
    and rs: "fst (get_current_user L hl fl dl) \<noteq> None"
  shows "sha256_bytes L t \<notin> token_hashes (snd (handle_app_get L hl ''/app/logout'' fl dl))"
proof -
  obtain user d where g: "get_current_user L hl fl dl = (user, d)"
    by (cases "get_current_user L hl fl dl")
  with rs have u: "user \<noteq> None" by simp
  have ne: "t \<noteq> []"
  proof
    assume "t = []"
    with ck have "get_current_user L hl fl dl = (None, dl)"
      by (simp add: get_current_user_def)
    with rs show False by simp
  qed
  from handle_app_get_snd [OF g, of "''/app/logout''"] u ck ne
  have "snd (handle_app_get L hl ''/app/logout'' fl dl) =
          delete_session_by_hash (sha256_bytes L t) d"
    by simp
  then show ?thesis by (simp add: token_hashes_delete_by_hash)
qed

lemma revoke_all_removes_hash:
  assumes di: "distinct (map s_token_hash (sessions d))"
    and s: "s \<in> set (sessions d)" "s_token_hash s = h" "s_user_id s = uid"
  shows "h \<notin> token_hashes (delete_sessions_of uid d)"
proof
  assume "h \<in> token_hashes (delete_sessions_of uid d)"
  then obtain x where x: "x \<in> set (sessions d)" "s_user_id x \<noteq> uid" "s_token_hash x = h"
    by (auto simp: token_hashes_def delete_sessions_of_def)
  from di x(1,3) s(1,2) have "x = s" by (auto simp: distinct_map inj_on_def)
  with x(2) s(3) show False by simp
qed

lemma sessions_mark_used [simp]: "sessions (mark_used rid now d) = sessions d"
  by (simp add: mark_used_def)

lemma sessions_update_password [simp]: "sessions (update_password uid salt pwh d) = sessions d"
  by (simp add: update_password_def)

text \<open>
  Claim C6. Let \<open>t\<close> be the token of a session that was revoked: either a
  \<^verbatim>\<open>GET /app/logout\<close> presented \<open>t\<close> while it resolved, or a password reset was
  confirmed for the user who owns the session of \<open>t\<close>. Then after every later sequence of
  requests, a request presenting \<open>t\<close> resolves to no user. New session tokens come from
  \<^verbatim>\<open>secrets.token_urlsafe(32)\<close>; the sequence is any in which none of them hashes to the
  hash of \<open>t\<close>.
\<close>

theorem revoked_session_never_resolves:
  assumes ck: "parse_cookies (h_cookie hs') ''bi_session'' = Some t"
    and fresh: "\<forall>rq \<in> set rqs. sha256_bytes L (new_token (fresh_of rq)) \<noteq> sha256_bytes L t"
  shows "(parse_cookies (h_cookie hl) ''bi_session'' = Some t \<and>
          fst (get_current_user L hl fl dl) \<noteq> None \<longrightarrow>
            fst (get_current_user L hs' fr'
                   (run L rqs (snd (handle_app_get L hl ''/app/logout'' fl dl)))) = None) \<and>
         (db_ok d0 \<and>
          handle_app_post L hs ''/app/reset/confirm'' f fr d0 = (page_confirm_ok, d1) \<and>
          reset_by_selector (before_first (CHR ''.'') (strip (form_get f ''token''))) d0
            = Some row \<and>
          s \<in> set (sessions d0) \<and> s_token_hash s = sha256_bytes L t \<and>
          s_user_id s = r_user_id row \<longrightarrow>
            fst (get_current_user L hs' fr' (run L rqs d1)) = None)"
proof (intro conjI impI)
  assume a: "parse_cookies (h_cookie hl) ''bi_session'' = Some t \<and>
             fst (get_current_user L hl fl dl) \<noteq> None"
  then have "sha256_bytes L t \<notin>
               token_hashes (snd (handle_app_get L hl ''/app/logout'' fl dl))"
    by (simp add: logout_removes_hash)
  then have "sha256_bytes L t \<notin>
               token_hashes (run L rqs (snd (handle_app_get L hl ''/app/logout'' fl dl)))"
    using fresh by (rule run_token_hashes)
  with ck show "fst (get_current_user L hs' fr'
                   (run L rqs (snd (handle_app_get L hl ''/app/logout'' fl dl)))) = None"
    by (simp add: unknown_hash_anonymous)
next
  assume a: "db_ok d0 \<and>
          handle_app_post L hs ''/app/reset/confirm'' f fr d0 = (page_confirm_ok, d1) \<and>
          reset_by_selector (before_first (CHR ''.'') (strip (form_get f ''token''))) d0
            = Some row \<and>
          s \<in> set (sessions d0) \<and> s_token_hash s = sha256_bytes L t \<and>
          s_user_id s = r_user_id row"
  then have c: "handle_app_post L hs ''/app/reset/confirm'' f fr d0 = (page_confirm_ok, d1)"
    and di: "distinct (map s_token_hash (sessions d0))"
    by (simp_all add: db_ok_def)
  from reset_confirm_ok [OF c refl] a
  have d1: "d1 = delete_sessions_of (r_user_id row)
                  (mark_used (r_id row) (clock_now fr)
                     (update_password (r_user_id row) (new_salt fr)
                        (password_hash L (form_get f ''new_password'') (new_salt fr)) d0))"
    by auto
  have "sha256_bytes L t \<notin> token_hashes d1"
    unfolding d1 using di a by (intro revoke_all_removes_hash [where s = s]) simp_all
  then have "sha256_bytes L t \<notin> token_hashes (run L rqs d1)"
    using fresh by (rule run_token_hashes)
  with ck show "fst (get_current_user L hs' fr' (run L rqs d1)) = None"
    by (simp add: unknown_hash_anonymous)
qed

theorem revoked_session_never_resolves_witness:
  "parse_cookies (h_cookie (ex_cookie ''tokA'')) ''bi_session'' = Some ''tokA'' \<and>
   fst (get_current_user ex_lib (ex_cookie ''tokA'') (ex_fresh 200 ''L'') ex_db1) \<noteq> None \<and>
   fst (get_current_user ex_lib (ex_cookie ''tokA'') (ex_fresh 500 ''Z'')
          (run ex_lib ex_later
             (snd (handle_app_get ex_lib (ex_cookie ''tokA'') ''/app/logout''
                     (ex_fresh 200 ''L'') ex_db1)))) = None \<and>
   db_ok ex_db5 \<and>
   handle_app_post ex_lib ex_hs ''/app/reset/confirm'' (ex_confirm ''selR.verR'')
     (ex_fresh 300 ''S'') ex_db5 = (page_confirm_ok, ex_db6) \<and>
   hd (sessions ex_db5) \<in> set (sessions ex_db5) \<and>
   s_token_hash (hd (sessions ex_db5)) = sha256_bytes ex_lib ''tokA'' \<and>
   fst (get_current_user ex_lib (ex_cookie ''tokA'') (ex_fresh 500 ''Z'')
          (run ex_lib ex_later ex_db6)) = None"
proof -
  have h1: "parse_cookies (h_cookie (ex_cookie ''tokA'')) ''bi_session'' = Some ''tokA''"
    by code_simp
  have h2: "\<forall>rq \<in> set ex_later.
              sha256_bytes ex_lib (new_token (fresh_of rq)) \<noteq> sha256_bytes ex_lib ''tokA''"
    by code_simp
  have h3: "fst (get_current_user ex_lib (ex_cookie ''tokA'') (ex_fresh 200 ''L'') ex_db1)
              \<noteq> None"
    by code_simp
  have h4: "db_ok ex_db5" by code_simp
  have "fst (handle_app_post ex_lib ex_hs ''/app/reset/confirm'' (ex_confirm ''selR.verR'')
               (ex_fresh 300 ''S'') ex_db5) = page_confirm_ok"
    by code_simp
  then have h5: "handle_app_post ex_lib ex_hs ''/app/reset/confirm''
                   (ex_confirm ''selR.verR'') (ex_fresh 300 ''S'') ex_db5 =
                 (page_confirm_ok, ex_db6)"
    by (simp add: ex_db6_def prod_eq_iff)
  have h6: "reset_by_selector
              (before_first (CHR ''.'') (strip (form_get (ex_confirm ''selR.verR'') ''token'')))
              ex_db5 = Some (hd (password_reset_tokens ex_db5))"
    by code_simp
  have h7: "hd (sessions ex_db5) \<in> set (sessions ex_db5)" by code_simp
  have h8: "s_token_hash (hd (sessions ex_db5)) = sha256_bytes ex_lib ''tokA''"
    by code_simp
  have h9: "s_user_id (hd (sessions ex_db5)) = r_user_id (hd (password_reset_tokens ex_db5))"
    by code_simp
  from revoked_session_never_resolves [OF h1 h2,
      where hl = "ex_cookie ''tokA''" and fl = "ex_fresh 200 ''L''" and dl = ex_db1
        and ?d0.0 = ex_db5 and hs = ex_hs and f = "ex_confirm ''selR.verR''"
        and fr = "ex_fresh 300 ''S''" and ?d1.0 = ex_db6
        and row = "hd (password_reset_tokens ex_db5)" and s = "hd (sessions ex_db5)"
        and fr' = "ex_fresh 500 ''Z''"]
    h1 h3 h4 h5 h6 h7 h8 h9
  show ?thesis by blast
qed

section \<open>Reset tokens redeem once\<close>

text \<open>
  Claim C5. When a POST to \<^verbatim>\<open>/app/reset/confirm\<close> succeeds in a store that satisfies
  the schema, the record of the selector had \<^verbatim>\<open>used_at\<close> NULL, an \<^verbatim>\<open>expires_at\<close> later than
  the clock reading and the hash of the presented verifier, and afterwards it has
  \<^verbatim>\<open>used_at\<close> set to the clock reading. From then on, after any sequence of requests
  (none of which draws the same selector again), no confirmation with the same token
  succeeds; one that passes the same-origin check, carries no valid session and has an
  acceptable password is answered with the status 400 page "Token expired or already
  used." and changes nothing.
\<close>

theorem reset_token_single_use:
  assumes ok: "db_ok d0"
    and c: "handle_app_post L hs ''/app/reset/confirm'' f fr d0 = (page_confirm_ok, d1)"
    and tk: "token = strip (form_get f ''token'')"
  shows "(\<exists>row. reset_by_selector (before_first (CHR ''.'') token) d0 = Some row \<and>
            r_used_at row = None \<and> clock_now fr < r_expires_at row \<and>
            sha256_bytes L (after_first (CHR ''.'') token) = r_verifier_hash row \<and>
            reset_by_selector (before_first (CHR ''.'') token) d1 =
              Some (row\<lparr>r_used_at := Some (clock_now fr)\<rparr>)) \<and>
         (\<forall>rqs hs' f' fr'.
            (\<forall>rq \<in> set rqs. new_selector (fresh_of rq) \<noteq> before_first (CHR ''.'') token) \<and>
            strip (form_get f' ''token'') = token \<longrightarrow>
              fst (handle_app_post L hs' ''/app/reset/confirm'' f' fr' (run L rqs d1))
                \<noteq> page_confirm_ok \<and>
              (same_origin_post L hs' \<and>
               fst (get_current_user L hs' fr' (run L rqs d1)) = None \<and>
               8 \<le> length (form_get f' ''new_password'') \<longrightarrow>
                 handle_app_post L hs' ''/app/reset/confirm'' f' fr' (run L rqs d1) =
                   (page_confirm_expired, run L rqs d1)))"
proof -
  let ?sel = "before_first (CHR ''.'') token"
  from reset_confirm_ok [OF c tk] obtain row where
    f: "reset_by_selector ?sel d0 = Some row" and u: "r_used_at row = None"
    and e: "clock_now fr < r_expires_at row"
    and v: "sha256_bytes L (after_first (CHR ''.'') token) = r_verifier_hash row"
    and d1: "d1 = delete_sessions_of (r_user_id row)
                  (mark_used (r_id row) (clock_now fr)
                     (update_password (r_user_id row) (new_salt fr)
                        (password_hash L (form_get f ''new_password'') (new_salt fr)) d0))"
    by blast
  let ?d = "update_password (r_user_id row) (new_salt fr)
              (password_hash L (form_get f ''new_password'') (new_salt fr)) d0"
  have tk0: "password_reset_tokens ?d = password_reset_tokens d0"
    by (simp add: update_password_def)
  from ok have di: "distinct (map r_selector (password_reset_tokens ?d))"
    by (simp add: db_ok_def tk0)
  from f have f': "reset_by_selector ?sel ?d = Some row"
    by (simp add: reset_by_selector_def tk0)
  have tk1: "password_reset_tokens d1 =
               password_reset_tokens (mark_used (r_id row) (clock_now fr) ?d)"
    by (simp add: d1 delete_sessions_of_def)
  from mark_used_spent [OF di f', of "clock_now fr"]
  have sp: "spent ?sel d1"
    and f1: "reset_by_selector ?sel d1 = Some (row\<lparr>r_used_at := Some (clock_now fr)\<rparr>)"
    by (simp_all add: spent_def reset_by_selector_def tk1)
  have dot: "CHR ''.'' \<in> set token"
  proof (rule ccontr)
    assume n: "CHR ''.'' \<notin> set token"
    have "fst (handle_app_post L hs ''/app/reset/confirm'' f fr d0) \<noteq> page_confirm_ok"
    proof (cases "same_origin_post L hs")
      case False
      then show ?thesis
        by (simp add: handle_app_post_def page_origin_failed_def page_confirm_ok_def)
    next
      case True
      obtain user d where g: "get_current_user L hs fr d0 = (user, d)"
        by (cases "get_current_user L hs fr d0")
      with True n tk show ?thesis
        by (simp add: handle_app_post_def post_routes_def post_reset_confirm_def with_conn_def
            Let_def page_confirm_ok_def page_confirm_short_def page_confirm_invalid_def
            split: option.splits)
    qed
    with c show False by simp
  qed
  have later: "fst (handle_app_post L hs' ''/app/reset/confirm'' f' fr' (run L rqs d1))
                \<noteq> page_confirm_ok \<and>
              (same_origin_post L hs' \<and>
               fst (get_current_user L hs' fr' (run L rqs d1)) = None \<and>
               8 \<le> length (form_get f' ''new_password'') \<longrightarrow>
                 handle_app_post L hs' ''/app/reset/confirm'' f' fr' (run L rqs d1) =
                   (page_confirm_expired, run L rqs d1))"
    if fr: "\<forall>rq \<in> set rqs. new_selector (fresh_of rq) \<noteq> ?sel"
      and t': "strip (form_get f' ''token'') = token"
    for rqs hs' f' fr'
  proof -
    from sp fr have "spent ?sel (run L rqs d1)" by (rule run_spent)
    with t' have s2: "spent (before_first (CHR ''.'') (strip (form_get f' ''token'')))
                        (run L rqs d1)" by simp
    from dot t' have dot': "CHR ''.'' \<in> set (strip (form_get f' ''token''))" by simp
    from spent_no_confirm [OF s2] spent_confirm_expired [OF s2 dot']
    show ?thesis by blast
  qed
  from f u e v f1 later show ?thesis by blast
qed

theorem reset_token_single_use_witness:
  "db_ok ex_db5 \<and>
   handle_app_post ex_lib ex_hs ''/app/reset/confirm'' (ex_confirm ''selR.verR'')
     (ex_fresh 300 ''S'') ex_db5 = (page_confirm_ok, ex_db6) \<and>
   ''selR.verR'' = strip (form_get (ex_confirm ''selR.verR'') ''token'') \<and>
   same_origin_post ex_lib ex_hs \<and>
   fst (get_current_user ex_lib ex_hs (ex_fresh 500 ''Z'') (run ex_lib ex_later ex_db6))
     = None \<and>
   8 \<le> length (form_get (ex_confirm ''selR.verR'') ''new_password'') \<and>
   handle_app_post ex_lib ex_hs ''/app/reset/confirm'' (ex_confirm ''selR.verR'')
     (ex_fresh 500 ''Z'') (run ex_lib ex_later ex_db6) =
     (page_confirm_expired, run ex_lib ex_later ex_db6) \<and>
   handle_app_post ex_lib ex_hs ''/app/reset/confirm'' (ex_confirm ''selR.verR'')
     (ex_fresh 500 ''Z'') (run ex_lib [] ex_db6) =
     (page_confirm_expired, run ex_lib [] ex_db6)"
proof -
  have h1: "db_ok ex_db5" by code_simp
  have "fst (handle_app_post ex_lib ex_hs ''/app/reset/confirm'' (ex_confirm ''selR.verR'')
               (ex_fresh 300 ''S'') ex_db5) = page_confirm_ok"
    by code_simp
  then have h2: "handle_app_post ex_lib ex_hs ''/app/reset/confirm''
                   (ex_confirm ''selR.verR'') (ex_fresh 300 ''S'') ex_db5 =
                 (page_confirm_ok, ex_db6)"
    by (simp add: ex_db6_def prod_eq_iff)
  have h3: "''selR.verR'' = strip (form_get (ex_confirm ''selR.verR'') ''token'')"
    by code_simp
  have h4: "\<forall>rq \<in> set ex_later.
              new_selector (fresh_of rq) \<noteq> before_first (CHR ''.'') ''selR.verR''"
    by code_simp
  have h5: "same_origin_post ex_lib ex_hs" by code_simp
  have h6: "fst (get_current_user ex_lib ex_hs (ex_fresh 500 ''Z'')
                   (run ex_lib ex_later ex_db6)) = None"
    by code_simp
  have h7: "8 \<le> length (form_get (ex_confirm ''selR.verR'') ''new_password'')"
    by code_simp
  have h8: "fst (get_current_user ex_lib ex_hs (ex_fresh 500 ''Z'') (run ex_lib [] ex_db6))
              = None"
    by code_simp
  have h9: "\<forall>rq \<in> set ([] :: request list).
              new_selector (fresh_of rq) \<noteq> before_first (CHR ''.'') ''selR.verR''"
    by simp
  note t = reset_token_single_use [OF h1 h2 h3]
  from t h3 h4 h5 h6 h7
  have a: "handle_app_post ex_lib ex_hs ''/app/reset/confirm'' (ex_confirm ''selR.verR'')
             (ex_fresh 500 ''Z'') (run ex_lib ex_later ex_db6) =
             (page_confirm_expired, run ex_lib ex_later ex_db6)"
    by metis
  from t h3 h9 h5 h8 h7
  have b: "handle_app_post ex_lib ex_hs ''/app/reset/confirm'' (ex_confirm ''selR.verR'')
             (ex_fresh 500 ''Z'') (run ex_lib [] ex_db6) =
             (page_confirm_expired, run ex_lib [] ex_db6)"
    by metis
  from h1 h2 h3 h5 h6 h7 a b show ?thesis by blast
qed

section \<open>Counting administrators\<close>

lemma find_SomeD: "find P xs = Some x \<Longrightarrow> x \<in> set xs \<and> P x"
  by (induction xs) (auto split: if_splits)

lemma map_other_ids:
  assumes "uid \<notin> u_id ` set xs"
  shows "map (\<lambda>u. if u_id u = uid then g u else u) xs = xs"
  using assms by (induction xs) auto

lemma count_admin_demote:
  assumes "distinct (map u_id xs)" and "find (\<lambda>u. u_id u = uid) xs = Some row"
    and "u_is_admin row"
  shows "Suc (length (filter u_is_admin
            (map (\<lambda>u. if u_id u = uid then u\<lparr>u_is_admin := False\<rparr> else u) xs))) =
         length (filter u_is_admin xs)"
  using assms
proof (induction xs)
  case Nil
  then show ?case by simp
next
  case (Cons x xs)
  show ?case
  proof (cases "u_id x = uid")
    case True
    with Cons.prems have "uid \<notin> u_id ` set xs" and "x = row" by auto
    with True Cons.prems(3) show ?thesis by (simp add: map_other_ids)
  next
    case False
    with Cons show ?thesis by simp
  qed
qed

lemma count_admin_delete:
  assumes "distinct (map u_id xs)" and "find (\<lambda>u. u_id u = uid) xs = Some row"
    and "u_is_admin row"
  shows "Suc (length (filter u_is_admin (filter (\<lambda>u. u_id u \<noteq> uid) xs))) =
         length (filter u_is_admin xs)"
  using assms
proof (induction xs)
  case Nil
  then show ?case by simp
next
  case (Cons x xs)
  show ?case
  proof (cases "u_id x = uid")
    case True
    with Cons.prems have "uid \<notin> u_id ` set xs" and "x = row" by auto
    then have "filter (\<lambda>u. u_id u \<noteq> uid) xs = xs" by (auto simp: filter_id_conv)
    with True \<open>x = row\<close> Cons.prems(3) show ?thesis by simp
  next
    case False
    with Cons show ?thesis by simp
  qed
qed

lemma count_admin_demote_other:
  assumes "case find (\<lambda>u. u_id u = uid) xs of None \<Rightarrow> True | Some row \<Rightarrow> \<not> u_is_admin row"
    and "distinct (map u_id xs)"
  shows "length (filter u_is_admin
            (map (\<lambda>u. if u_id u = uid then u\<lparr>u_is_admin := b\<rparr> else u) xs))
         \<ge> length (filter u_is_admin xs)"
  using assms
proof (induction xs)
  case Nil
  then show ?case by simp
next
  case (Cons x xs)
  show ?case
  proof (cases "u_id x = uid")
    case True
    with Cons.prems have "uid \<notin> u_id ` set xs" and "\<not> u_is_admin x" by auto
    with True show ?thesis by (simp add: map_other_ids)
  next
    case False
    with Cons show ?thesis by auto
  qed
qed

lemma count_admin_delete_other:
  assumes "case find (\<lambda>u. u_id u = uid) xs of None \<Rightarrow> True | Some row \<Rightarrow> \<not> u_is_admin row"
    and "distinct (map u_id xs)"
  shows "length (filter u_is_admin (filter (\<lambda>u. u_id u \<noteq> uid) xs)) =
         length (filter u_is_admin xs)"
  using assms
proof (induction xs)
  case Nil
  then show ?case by simp
next
  case (Cons x xs)
  show ?case
  proof (cases "u_id x = uid")
    case True
    with Cons.prems have "uid \<notin> u_id ` set xs" and "\<not> u_is_admin x" by auto
    then have "filter (\<lambda>u. u_id u \<noteq> uid) xs = xs" by (auto simp: filter_id_conv)
    with True \<open>\<not> u_is_admin x\<close> show ?thesis by simp
  next
    case False
    with Cons show ?thesis by auto
  qed
qed

lemma n_admin_set_admin_False:
  assumes "distinct (map u_id (users d))" and "user_by_id uid d = Some row"
    and "u_is_admin row"
  shows "Suc (n_admin (set_admin uid False d)) = n_admin d"
  using count_admin_demote [of "users d" uid row] assms
  by (simp add: n_admin_def set_admin_def user_by_id_def)

lemma n_admin_delete_user:
  assumes "distinct (map u_id (users d))" and "user_by_id uid d = Some row"
    and "u_is_admin row"
  shows "Suc (n_admin (delete_user uid d)) = n_admin d"
proof -
  from assms(2) have "row \<in> set (users d) \<and> u_id row = uid"
    unfolding user_by_id_def by (rule find_SomeD)
  then have "uid \<in> u_id ` set (users d)" by force
  with count_admin_delete [of "users d" uid row] assms show ?thesis
    by (simp add: n_admin_def delete_user_def user_by_id_def)
qed

lemma n_admin_set_admin_other:
  assumes "distinct (map u_id (users d))"
    and "case user_by_id uid d of None \<Rightarrow> True | Some row \<Rightarrow> \<not> u_is_admin row"
  shows "n_admin d \<le> n_admin (set_admin uid b d)"
  using count_admin_demote_other [of uid "users d" b] assms
  by (simp add: n_admin_def set_admin_def user_by_id_def)

lemma n_admin_delete_other:
  assumes "distinct (map u_id (users d))"
    and "case user_by_id uid d of None \<Rightarrow> True | Some row \<Rightarrow> \<not> u_is_admin row"
  shows "n_admin (delete_user uid d) = n_admin d"
  using count_admin_delete_other [of uid "users d"] assms
  by (simp add: n_admin_def delete_user_def user_by_id_def)

lemma n_admin_set_disabled [simp]: "n_admin (set_disabled uid b d) = n_admin d"
proof -
  have "map u_is_admin (users (set_disabled uid b d)) = map u_is_admin (users d)"
    by (simp add: set_disabled_def comp_def cong: map_cong)
  then have "length (filter id (map u_is_admin (users (set_disabled uid b d)))) =
             length (filter id (map u_is_admin (users d)))" by simp
  then show ?thesis by (simp add: n_admin_def filter_map comp_def)
qed

lemma n_admin_users: "users d' = users d \<Longrightarrow> n_admin d' = n_admin d"
  by (simp add: n_admin_def)

section \<open>The last-administrator guard\<close>

lemma admin_gate_open:
  assumes so: "same_origin_post L hs" and cu: "get_current_user L hs fr d0 = (Some cu, d)"
    and adm: "cu_is_admin cu"
  shows "handle_app_post L hs ''/app/admin/toggle-admin'' f fr d0 =
           with_conn d0 (admin_toggle_admin L f fr d)"
    and "handle_app_post L hs ''/app/admin/toggle-disabled'' f fr d0 =
           with_conn d0 (admin_toggle_disabled L f fr d)"
    and "handle_app_post L hs ''/app/admin/delete-user'' f fr d0 =
           with_conn d0 (admin_delete_user L f fr d)"
  using so cu adm
  by (simp_all add: handle_app_post_def post_routes_def post_admin_def startswith_def)

lemma user_by_id_set_admin:
  "user_by_id uid (set_admin uid' b d) =
     map_option (\<lambda>u. if u_id u = uid' then u\<lparr>u_is_admin := b\<rparr> else u) (user_by_id uid d)"
  unfolding user_by_id_def set_admin_def
  by (simp add: find_map_same)

lemma user_by_id_delete_user: "user_by_id uid (delete_user uid d) = None"
  by (auto simp: user_by_id_def delete_user_def find_None_iff)

text \<open>
  Claim C2, as stated, fails: the guard counts the users with \<^verbatim>\<open>is_admin\<close> set, disabled
  or not. In \<open>ex_db3\<close> users 1 and 2 are administrators and user 2 is disabled; the
  demotion of user 1 is applied and leaves no enabled administrator.
\<close>

theorem demote_beside_disabled_admin_counterexample:
  "map u_id (users ex_db3) = [1, 2] \<and>
   map u_is_admin (users ex_db3) = [True, True] \<and>
   map u_disabled (users ex_db3) = [False, True] \<and>
   fst (handle_app_post ex_lib (ex_cookie ''tokA'') ''/app/admin/toggle-admin''
          (ex_toggle_admin ''1'' ''0'') (ex_fresh 400 ''D'') ex_db3) =
     RedirectAdminMsg ''Updated'' \<and>
   map u_is_admin (users (snd (handle_app_post ex_lib (ex_cookie ''tokA'')
          ''/app/admin/toggle-admin'' (ex_toggle_admin ''1'' ''0'') (ex_fresh 400 ''D'')
          ex_db3))) = [False, True] \<and>
   enabled_admins (snd (handle_app_post ex_lib (ex_cookie ''tokA'')
          ''/app/admin/toggle-admin'' (ex_toggle_admin ''1'' ''0'') (ex_fresh 400 ''D'')
          ex_db3)) = []"
  by code_simp

text \<open>
  Claim C2, amended. Let an administrator's request pass the same-origin check and name
  a target user who is an administrator. A demotion (\<^verbatim>\<open>is_admin\<close> parsed as 0) and a
  deletion count, in the store of the same transaction, the users with \<^verbatim>\<open>is_admin\<close> set,
  whether disabled or not. If that count is at most one, the request is answered with
  "Cannot remove the last admin" or "Cannot delete the last admin" and the store is left
  as authentication left it (users and reset records as before the request). Otherwise
  the change is applied: the target loses \<^verbatim>\<open>is_admin\<close> or is deleted, and the count drops
  by one. In particular the demotion of one of two administrators succeeds.
\<close>

theorem last_admin_guard:
  assumes so: "same_origin_post L hs"
    and cu: "get_current_user L hs fr d0 = (Some cu, d)"
    and adm: "cu_is_admin cu"
    and uid: "to_int L (form_get_or f ''user_id'' ''0'') = Some uid"
    and tgt: "user_by_id uid d = Some target" and ta: "u_is_admin target"
  shows "(to_int L (form_get_or f ''is_admin'' ''0'') = Some 0 \<longrightarrow>
            handle_app_post L hs ''/app/admin/toggle-admin'' f fr d0 =
              (if n_admin d \<le> 1
               then (RedirectAdminMsg ''Cannot remove the last admin'', d)
               else (RedirectAdminMsg ''Updated'', set_admin uid False d))) \<and>
         handle_app_post L hs ''/app/admin/delete-user'' f fr d0 =
           (if n_admin d \<le> 1
            then (RedirectAdminMsg ''Cannot delete the last admin'', d)
            else (RedirectAdminMsg ''User deleted'', delete_user uid d)) \<and>
         users d = users d0 \<and>
         password_reset_tokens d = password_reset_tokens d0 \<and>
         n_admin d = length (filter u_is_admin (users d0)) \<and>
         user_by_id uid (set_admin uid False d) = Some (target\<lparr>u_is_admin := False\<rparr>) \<and>
         user_by_id uid (delete_user uid d) = None \<and>
         (db_ok d0 \<longrightarrow>
            Suc (n_admin (set_admin uid False d)) = n_admin d \<and>
            Suc (n_admin (delete_user uid d)) = n_admin d)"
proof -
  from cu have us: "users d = users d0" by (rule get_current_user_users)
  from get_current_user_cases [OF cu]
  have ts: "password_reset_tokens d = password_reset_tokens d0" by auto
  from tgt have tid: "u_id target = uid"
    unfolding user_by_id_def by (auto dest: find_SomeD)
  have a: "to_int L (form_get_or f ''is_admin'' ''0'') = Some 0 \<longrightarrow>
            handle_app_post L hs ''/app/admin/toggle-admin'' f fr d0 =
              (if n_admin d \<le> 1
               then (RedirectAdminMsg ''Cannot remove the last admin'', d)
               else (RedirectAdminMsg ''Updated'', set_admin uid False d))"
    unfolding admin_gate_open(1) [OF so cu adm]
    using uid tgt ta by (simp add: admin_toggle_admin_def with_conn_def)
  have b: "handle_app_post L hs ''/app/admin/delete-user'' f fr d0 =
           (if n_admin d \<le> 1
            then (RedirectAdminMsg ''Cannot delete the last admin'', d)
            else (RedirectAdminMsg ''User deleted'', delete_user uid d))"
    unfolding admin_gate_open(3) [OF so cu adm]
    using uid tgt ta by (simp add: admin_delete_user_def with_conn_def)
  have c: "user_by_id uid (set_admin uid False d) = Some (target\<lparr>u_is_admin := False\<rparr>)"
    using tgt tid by (simp add: user_by_id_set_admin)
  have e: "db_ok d0 \<longrightarrow>
            Suc (n_admin (set_admin uid False d)) = n_admin d \<and>
            Suc (n_admin (delete_user uid d)) = n_admin d"
  proof
    assume "db_ok d0"
    with us have "distinct (map u_id (users d))" by (simp add: db_ok_def)
    with tgt ta show "Suc (n_admin (set_admin uid False d)) = n_admin d \<and>
            Suc (n_admin (delete_user uid d)) = n_admin d"
      by (simp add: n_admin_set_admin_False n_admin_delete_user)
  qed
  from a b us ts c e show ?thesis
    by (simp add: n_admin_def user_by_id_delete_user)
qed

theorem last_admin_guard_witness:
  "same_origin_post ex_lib (ex_cookie ''tokA'') \<and>
   get_current_user ex_lib (ex_cookie ''tokA'') (ex_fresh 300 ''C'') ex_db2 =
     (Some ex_cu1, touch_session 1 300 ex_db2) \<and>
   cu_is_admin ex_cu1 \<and>
   to_int ex_lib (form_get_or (ex_toggle_admin ''2'' ''0'') ''user_id'' ''0'') = Some 2 \<and>
   user_by_id 2 (touch_session 1 300 ex_db2) = Some (users ex_db2 ! 1) \<and>
   u_is_admin (users ex_db2 ! 1) \<and>
   to_int ex_lib (form_get_or (ex_toggle_admin ''2'' ''0'') ''is_admin'' ''0'') = Some 0 \<and>
   n_admin (touch_session 1 300 ex_db2) = 2 \<and>
   handle_app_post ex_lib (ex_cookie ''tokA'') ''/app/admin/toggle-admin''
     (ex_toggle_admin ''2'' ''0'') (ex_fresh 300 ''C'') ex_db2 =
     (RedirectAdminMsg ''Updated'', set_admin 2 False (touch_session 1 300 ex_db2))"
proof -
  have h1: "same_origin_post ex_lib (ex_cookie ''tokA'')" by code_simp
  have h2: "get_current_user ex_lib (ex_cookie ''tokA'') (ex_fresh 300 ''C'') ex_db2 =
              (Some ex_cu1, touch_session 1 300 ex_db2)" by code_simp
  have h3: "cu_is_admin ex_cu1" by (simp add: ex_cu1_def)
  have h4: "to_int ex_lib (form_get_or (ex_toggle_admin ''2'' ''0'') ''user_id'' ''0'')
              = Some 2" by code_simp
  have h5: "user_by_id 2 (touch_session 1 300 ex_db2) = Some (users ex_db2 ! 1)"
    by code_simp
  have h6: "u_is_admin (users ex_db2 ! 1)" by code_simp
  have h7: "to_int ex_lib (form_get_or (ex_toggle_admin ''2'' ''0'') ''is_admin'' ''0'')
              = Some 0" by code_simp
  have h8: "n_admin (touch_session 1 300 ex_db2) = 2" by code_simp
  from last_admin_guard [OF h1 h2 h3 h4 h5 h6] h7 h8
  have "handle_app_post ex_lib (ex_cookie ''tokA'') ''/app/admin/toggle-admin''
          (ex_toggle_admin ''2'' ''0'') (ex_fresh 300 ''C'') ex_db2 =
        (RedirectAdminMsg ''Updated'', set_admin 2 False (touch_session 1 300 ex_db2))"
    by simp
  with h1 h2 h3 h4 h5 h6 h7 h8 show ?thesis by blast
qed

section \<open>An administrator remains\<close>

lemma count_admin_promote:
  "length (filter u_is_admin xs) \<le>
   length (filter u_is_admin
             (map (\<lambda>u. if u_id u = uid then u\<lparr>u_is_admin := True\<rparr> else u) xs))"
  by (induction xs) auto

lemma n_admin_set_admin_True: "n_admin d \<le> n_admin (set_admin uid True d)"
  using count_admin_promote [of "users d" uid] by (simp add: n_admin_def set_admin_def)

lemma admin_toggle_admin_keeps:
  assumes di: "distinct (map u_id (users d))" and ad: "1 \<le> n_admin d"
    and r: "admin_toggle_admin L f fr d = Some (resp, d')"
  shows "1 \<le> n_admin d'"
proof (cases "to_int L (form_get_or f ''user_id'' ''0'')")
  case None
  with r ad show ?thesis by (simp add: admin_toggle_admin_def)
next
  case u: (Some uid)
  show ?thesis
  proof (cases "to_int L (form_get_or f ''is_admin'' ''0'')")
    case None
    with u r ad show ?thesis by (simp add: admin_toggle_admin_def)
  next
    case i: (Some i)
    show ?thesis
    proof (cases "i = 0")
      case False
      with u i r have "d' = set_admin uid True d"
        by (simp add: admin_toggle_admin_def)
      with ad n_admin_set_admin_True [of d uid] show ?thesis by simp
    next
      case True
      show ?thesis
      proof (cases "case user_by_id uid d of None \<Rightarrow> True | Some row \<Rightarrow> \<not> u_is_admin row")
        case t: True
        with u i True r have "d' = set_admin uid False d"
          by (auto simp: admin_toggle_admin_def split: option.splits)
        with ad n_admin_set_admin_other [OF di t, of False] show ?thesis by simp
      next
        case False
        then obtain row where row: "user_by_id uid d = Some row" "u_is_admin row"
          by (auto split: option.splits)
        from n_admin_set_admin_False [OF di row]
        have s: "Suc (n_admin (set_admin uid False d)) = n_admin d" .
        from u i True r row have "d' = d \<or> (\<not> n_admin d \<le> 1 \<and> d' = set_admin uid False d)"
          by (auto simp: admin_toggle_admin_def split: if_splits)
        with ad s show ?thesis by auto
      qed
    qed
  qed
qed

lemma admin_delete_user_keeps:
  assumes di: "distinct (map u_id (users d))" and ad: "1 \<le> n_admin d"
    and r: "admin_delete_user L f fr d = Some (resp, d')"
  shows "1 \<le> n_admin d'"
proof (cases "to_int L (form_get_or f ''user_id'' ''0'')")
  case None
  with r ad show ?thesis by (simp add: admin_delete_user_def)
next
  case u: (Some uid)
  show ?thesis
  proof (cases "case user_by_id uid d of None \<Rightarrow> True | Some row \<Rightarrow> \<not> u_is_admin row")
    case t: True
    with u r have "d' = delete_user uid d"
      by (auto simp: admin_delete_user_def split: option.splits)
    with ad n_admin_delete_other [OF di t] show ?thesis by simp
  next
    case False
    then obtain row where row: "user_by_id uid d = Some row" "u_is_admin row"
      by (auto split: option.splits)
    from n_admin_delete_user [OF di row]
    have s: "Suc (n_admin (delete_user uid d)) = n_admin d" .
    from u r row have "d' = d \<or> (\<not> n_admin d \<le> 1 \<and> d' = delete_user uid d)"
      by (auto simp: admin_delete_user_def split: if_splits)
    with ad s show ?thesis by auto
  qed
qed

lemma admin_toggle_disabled_keeps:
  assumes r: "admin_toggle_disabled L f fr d = Some (resp, d')"
  shows "n_admin d' = n_admin d"
  using r by (auto simp: admin_toggle_disabled_def split: option.splits)

text \<open>
  Claim C1, as stated, fails: \<^verbatim>\<open>/app/admin/toggle-disabled\<close> has no guard. In \<open>ex_db1\<close>,
  the state after the first registration, user 1 is the only administrator and is
  enabled; its own request to disable user 1 is applied and no enabled administrator is
  left.
\<close>

theorem last_enabled_admin_disabled_counterexample:
  "ex_db1 = run ex_lib [POST ex_hs ''/app/register'' (ex_credentials ''a@x.com'')
                          (ex_fresh 100 ''A'')] empty_db \<and>
   length (enabled_admins ex_db1) = 1 \<and>
   fst (handle_app_post ex_lib (ex_cookie ''tokA'') ''/app/admin/toggle-disabled''
          (ex_toggle_disabled ''1'' ''1'') (ex_fresh 200 ''B'') ex_db1) =
     RedirectAdminMsg ''Updated'' \<and>
   enabled_admins (snd (handle_app_post ex_lib (ex_cookie ''tokA'')
          ''/app/admin/toggle-disabled'' (ex_toggle_disabled ''1'' ''1'')
          (ex_fresh 200 ''B'') ex_db1)) = []"
  by code_simp

text \<open>
  Claim C1, amended. In a store that satisfies the schema and holds at least one user
  with \<^verbatim>\<open>is_admin\<close> set, whether disabled or not, the store after a POST to
  \<^verbatim>\<open>/app/admin/toggle-admin\<close>, \<^verbatim>\<open>/app/admin/toggle-disabled\<close> or \<^verbatim>\<open>/app/admin/delete-user\<close>
  still holds at least one user with \<^verbatim>\<open>is_admin\<close> set. (\<open>n_admin\<close> counts these users.)
\<close>

theorem admin_remains:
  assumes ok: "db_ok d" and ad: "1 \<le> n_admin d"
    and p: "path = ''/app/admin/toggle-admin'' \<or> path = ''/app/admin/toggle-disabled'' \<or>
            path = ''/app/admin/delete-user''"
  shows "1 \<le> n_admin (snd (handle_app_post L hs path f fr d))"
proof (cases "same_origin_post L hs")
  case False
  with ad show ?thesis by (simp add: handle_app_post_def)
next
  case so: True
  obtain user d1 where g: "get_current_user L hs fr d = (user, d1)"
    by (cases "get_current_user L hs fr d")
  then have us: "users d1 = users d" by (rule get_current_user_users)
  with ok ad have di: "distinct (map u_id (users d1))" and ad1: "1 \<le> n_admin d1"
    by (simp_all add: db_ok_def n_admin_def)
  show ?thesis
  proof (cases "\<exists>cu. user = Some cu \<and> cu_is_admin cu")
    case False
    with so g p have "snd (handle_app_post L hs path f fr d) = d1"
      by (cases user)
        (auto simp: handle_app_post_def post_routes_def post_admin_def startswith_def
          with_conn_def)
    with ad1 show ?thesis by simp
  next
    case True
    then obtain cu where cu: "user = Some cu" "cu_is_admin cu" by blast
    from g cu have g': "get_current_user L hs fr d = (Some cu, d1)" by simp
    note gate = admin_gate_open [OF so g' cu(2)]
    from p show ?thesis
    proof (elim disjE)
      assume pa: "path = ''/app/admin/toggle-admin''"
      show ?thesis
      proof (cases "admin_toggle_admin L f fr d1")
        case None
        with ad show ?thesis unfolding pa gate(1) by (simp add: with_conn_def)
      next
        case (Some a)
        obtain resp d' where a: "a = (resp, d')" by (cases a)
        from admin_toggle_admin_keeps [OF di ad1 Some [unfolded a]] Some a
        show ?thesis unfolding pa gate(1) by (simp add: with_conn_def)
      qed
    next
      assume pa: "path = ''/app/admin/toggle-disabled''"
      show ?thesis
      proof (cases "admin_toggle_disabled L f fr d1")
        case None
        with ad show ?thesis unfolding pa gate(2) by (simp add: with_conn_def)
      next
        case (Some a)
        obtain resp d' where a: "a = (resp, d')" by (cases a)
        from admin_toggle_disabled_keeps [OF Some [unfolded a]] Some a ad1
        show ?thesis unfolding pa gate(2) by (simp add: with_conn_def)
      qed
    next
      assume pa: "path = ''/app/admin/delete-user''"
      show ?thesis
      proof (cases "admin_delete_user L f fr d1")
        case None
        with ad show ?thesis unfolding pa gate(3) by (simp add: with_conn_def)
      next
        case (Some a)
        obtain resp d' where a: "a = (resp, d')" by (cases a)
        from admin_delete_user_keeps [OF di ad1 Some [unfolded a]] Some a
        show ?thesis unfolding pa gate(3) by (simp add: with_conn_def)
      qed
    qed
  qed
qed

theorem admin_remains_witness:
  "db_ok ex_db1 \<and> 1 \<le> n_admin ex_db1 \<and>
   1 \<le> n_admin (snd (handle_app_post ex_lib (ex_cookie ''tokA'') ''/app/admin/toggle-admin''
                        (ex_toggle_admin ''1'' ''0'') (ex_fresh 200 ''B'') ex_db1)) \<and>
   fst (handle_app_post ex_lib (ex_cookie ''tokA'') ''/app/admin/toggle-admin''
          (ex_toggle_admin ''1'' ''0'') (ex_fresh 200 ''B'') ex_db1) =
     RedirectAdminMsg ''Cannot remove the last admin''"
proof -
  have h1: "db_ok ex_db1" by code_simp
  have h2: "1 \<le> n_admin ex_db1" by code_simp
  have h3: "''/app/admin/toggle-admin'' = ''/app/admin/toggle-admin'' \<or>
            ''/app/admin/toggle-admin'' = ''/app/admin/toggle-disabled'' \<or>
            ''/app/admin/toggle-admin'' = ''/app/admin/delete-user''" by simp
  have h4: "fst (handle_app_post ex_lib (ex_cookie ''tokA'') ''/app/admin/toggle-admin''
          (ex_toggle_admin ''1'' ''0'') (ex_fresh 200 ''B'') ex_db1) =
     RedirectAdminMsg ''Cannot remove the last admin''" by code_simp
  from admin_remains [OF h1 h2 h3] h1 h2 h4 show ?thesis by blast
qed

text \<open>
  The route \<^verbatim>\<open>/app/account/delete\<close> deletes the current user without counting
  administrators: in \<open>ex_db1\<close> the only administrator deletes its own account and the
  \<^verbatim>\<open>users\<close> table is empty afterwards.
\<close>

lemma sole_admin_deletes_own_account:
  "handle_app_post ex_lib (ex_cookie ''tokA'') ''/app/account/delete''
     [''password'' \<mapsto> ''password1''] (ex_fresh 200 ''B'') ex_db1 =
   (ClearCookieRedirect ''/app/register'',
    \<lparr>users = [], sessions = [], password_reset_tokens = [],
     user_seq = 1, session_seq = 1, reset_seq = 0\<rparr>)"
  by code_simp

section \<open>Requesting a password reset\<close>

text \<open>
  Claim C3 against the code. In \<open>ex_db1\<close> the address \<^verbatim>\<open>a@x.com\<close> belongs to an enabled
  account and \<^verbatim>\<open>nobody@x.com\<close> to none. The two POSTs to \<^verbatim>\<open>/app/reset\<close> are answered
  differently: the first with the page "Reset link created (dev)." that shows the link
  and the token, the second with the page "If the account exists, a reset link has been
  created."; only the first adds a reset record.
\<close>

theorem reset_request_reveals_account:
  "enabled_user_by_email (normalize_email ''a@x.com'') ex_db1 \<noteq> None \<and>
   user_by_email (normalize_email ''nobody@x.com'') ex_db1 = None \<and>
   handle_app_post ex_lib ex_hs ''/app/reset'' (ex_email ''a@x.com'')
     (ex_fresh 200 ''R'') ex_db1 = (ResetLinkHtml ''selR.verR'', ex_db5) \<and>
   length (password_reset_tokens ex_db5) = 1 \<and>
   handle_app_post ex_lib ex_hs ''/app/reset'' (ex_email ''nobody@x.com'')
     (ex_fresh 200 ''R'') ex_db1 =
     (Html 200 ''Reset password''
        ''<h1>Reset password</h1><p class='ok'>If the account exists, a reset link has been created.</p><p><a href='/app/login'>Back to login</a></p>'',
      ex_db1) \<and>
   fst (handle_app_post ex_lib ex_hs ''/app/reset'' (ex_email ''a@x.com'')
          (ex_fresh 200 ''R'') ex_db1) \<noteq>
   fst (handle_app_post ex_lib ex_hs ''/app/reset'' (ex_email ''nobody@x.com'')
          (ex_fresh 200 ''R'') ex_db1)"
  by code_simp

section \<open>The schema constraints are kept\<close>

lemma db_ok_empty: "db_ok empty_db"
  by (simp add: db_ok_def empty_db_def)

lemma db_ok_keys:
  "db_ok d \<longleftrightarrow>
     distinct (map u_id (users d)) \<and>
     distinct (map u_email_norm (users d)) \<and>
     distinct (map s_id (sessions d)) \<and>
     distinct (map s_token_hash (sessions d)) \<and>
     distinct (map r_id (password_reset_tokens d)) \<and>
     distinct (map r_selector (password_reset_tokens d)) \<and>
     set (map s_user_id (sessions d)) \<subseteq> set (map u_id (users d)) \<and>
     set (map r_user_id (password_reset_tokens d)) \<subseteq> set (map u_id (users d)) \<and>
     (\<forall>i \<in> set (map u_id (users d)). i \<le> user_seq d) \<and>
     (\<forall>i \<in> set (map s_id (sessions d)). i \<le> session_seq d) \<and>
     (\<forall>i \<in> set (map r_id (password_reset_tokens d)). i \<le> reset_seq d)"
  by (auto simp: db_ok_def)

lemma map_key_update:
  assumes "\<And>x. k (g x) = k x"
  shows "map k (map g xs) = map k xs"
  using assms by (induction xs) auto

lemma db_ok_touch_session: "db_ok d \<Longrightarrow> db_ok (touch_session sid now d)"
  unfolding db_ok_keys touch_session_def
  by (simp add: map_key_update del: map_map set_map)

lemma db_ok_update_password: "db_ok d \<Longrightarrow> db_ok (update_password uid salt pwh d)"
  unfolding db_ok_keys update_password_def
  by (simp add: map_key_update del: map_map set_map)

lemma db_ok_set_disabled: "db_ok d \<Longrightarrow> db_ok (set_disabled uid b d)"
  unfolding db_ok_keys set_disabled_def
  by (simp add: map_key_update del: map_map set_map)

lemma db_ok_set_admin: "db_ok d \<Longrightarrow> db_ok (set_admin uid b d)"
  unfolding db_ok_keys set_admin_def
  by (simp add: map_key_update del: map_map set_map)

lemma db_ok_mark_used: "db_ok d \<Longrightarrow> db_ok (mark_used rid now d)"
  unfolding db_ok_keys mark_used_def
  by (simp add: map_key_update del: map_map set_map)

lemma db_ok_delete_sessions_of: "db_ok d \<Longrightarrow> db_ok (delete_sessions_of uid d)"
  unfolding db_ok_def delete_sessions_of_def
  by (auto simp: distinct_map_filter)

lemma db_ok_delete_session_by_hash: "db_ok d \<Longrightarrow> db_ok (delete_session_by_hash h d)"
  unfolding db_ok_def delete_session_by_hash_def
  by (auto simp: distinct_map_filter)

lemma db_ok_delete_user: "db_ok d \<Longrightarrow> db_ok (delete_user uid d)"
  unfolding db_ok_def delete_user_def
  by (auto simp: distinct_map_filter)

lemma db_ok_insert_user:
  assumes ok: "db_ok d" and ins: "insert_user e en salt pwh adm dis now d = Some d'"
  shows "db_ok d'"
proof -
  from ins have en: "en \<notin> u_email_norm ` set (users d)"
    and d': "d' = d\<lparr>users := users d @
                     [\<lparr>u_id = user_seq d + 1, u_email = e, u_email_norm = en,
                       u_pass_salt = salt, u_pass_hash = pwh, u_is_admin = adm,
                       u_disabled = dis, u_created_at = now\<rparr>],
                   user_seq := user_seq d + 1\<rparr>"
    by (auto simp: insert_user_def split: if_splits)
  from ok have f1: "user_seq d + 1 \<notin> u_id ` set (users d)"
    by (force simp: db_ok_def)
  from ok have f2: "\<forall>u \<in> set (users d). u_id u \<le> user_seq d + 1"
    by (force simp: db_ok_def)
  from ok en f1 f2 show ?thesis
    unfolding db_ok_def d' by auto
qed

lemma db_ok_insert_session:
  assumes ok: "db_ok d" and ins: "insert_session uid th c s e d = Some d'"
  shows "db_ok d'"
proof -
  from ins have th: "th \<notin> s_token_hash ` set (sessions d)"
    and u: "uid \<in> u_id ` set (users d)"
    and d': "d' = d\<lparr>sessions := sessions d @
                     [\<lparr>s_id = session_seq d + 1, s_user_id = uid, s_token_hash = th,
                       s_created_at = c, s_last_seen_at = s, s_expires_at = e\<rparr>],
                   session_seq := session_seq d + 1\<rparr>"
    by (auto simp: insert_session_def split: if_splits)
  from ok have f1: "session_seq d + 1 \<notin> s_id ` set (sessions d)"
    by (force simp: db_ok_def)
  from ok have f2: "\<forall>x \<in> set (sessions d). s_id x \<le> session_seq d + 1"
    by (force simp: db_ok_def)
  from ok th u f1 f2 show ?thesis
    unfolding db_ok_def d' by auto
qed

lemma db_ok_insert_reset:
  assumes ok: "db_ok d" and ins: "insert_reset uid sel vh c e d = Some d'"
  shows "db_ok d'"
proof -
  from ins have th: "sel \<notin> r_selector ` set (password_reset_tokens d)"
    and u: "uid \<in> u_id ` set (users d)"
    and d': "d' = d\<lparr>password_reset_tokens := password_reset_tokens d @
                     [\<lparr>r_id = reset_seq d + 1, r_user_id = uid, r_selector = sel,
                       r_verifier_hash = vh, r_created_at = c,
                       r_expires_at = e, r_used_at = None\<rparr>],
                   reset_seq := reset_seq d + 1\<rparr>"
    by (auto simp: insert_reset_def split: if_splits)
  from ok have f1: "reset_seq d + 1 \<notin> r_id ` set (password_reset_tokens d)"
    by (force simp: db_ok_def)
  from ok have f2: "\<forall>x \<in> set (password_reset_tokens d). r_id x \<le> reset_seq d + 1"
    by (force simp: db_ok_def)
  from ok th u f1 f2 show ?thesis
    unfolding db_ok_def d' by auto
qed

lemma db_ok_create_session:
  "db_ok d \<Longrightarrow> create_session L fr uid d = Some (t, e, d') \<Longrightarrow> db_ok d'"
  by (auto simp: create_session_def Let_def split: option.splits dest: db_ok_insert_session)

end
